theory Spec2Isabelle
  imports Main "HOL-Library.AList" "HOL-Library.Multiset"
begin

section \<open>kraken2krona: a shallow embedding of \<open>kraken2krona.py\<close>\<close>

text \<open>
  The program reads Kraken 2 style report files, sums the read counts per tax ID over
  all files, resolves the lineage of every tax ID through a \<open>TaxonomyTree\<close> and writes
  one tab-separated row per tax ID.

  Conventions of the embedding.
  \<^item> Python's unbounded \<open>int\<close> is \<open>int\<close>; a Python \<open>str\<close> is a \<open>string\<close>, each \<open>char\<close>
    standing for the code point of the same number (code points below 256).
  \<^item> A raised exception is a value \<open>Inl e\<close>; nothing in the program catches one, so
    every \<open>Inl\<close> propagates to the caller unchanged.
  \<^item> The calls made to the \<open>TaxonomyTree\<close> and the messages given to \<open>log.info\<close> are
    the effects of the program beside its output file. Every function returns them
    as a list of events, in the order in which they happen.
  \<^item> The \<open>TaxonomyTree\<close> class comes from the package \<open>stringmeup\<close>. It is a parameter
    of the model: three partial functions, where \<open>None\<close> stands for a raised exception.
  \<^item> A report file is its name together with its lines; the output file is the list
    of the rows written to it.
\<close>

subsection \<open>Errors, events and the result of an effectful function\<close>

datatype error =
    IndexError              \<comment> \<open>\<open>line[i]\<close> with too few fields\<close>
  | ValueError              \<comment> \<open>\<open>int(s)\<close> on a string that is no integer literal\<close>
  | TaxonomyTreeException   \<comment> \<open>whatever the \<open>TaxonomyTree\<close> raises on an ID it cannot resolve\<close>
  | KeyError                \<comment> \<open>\<open>set_index('t_id')\<close> on a frame without that column\<close>

datatype event =
    Call_get_lineage int
  | Call_get_rank int
  | Call_get_name int
  | Log_info string

type_synonym 'a traced = "(error + 'a) \<times> event list"

definition then_do :: "'a traced \<Rightarrow> ('a \<Rightarrow> 'b traced) \<Rightarrow> 'b traced" where
  "then_do m f =
     (case m of
        (Inl e, ev) \<Rightarrow> (Inl e, ev)
      | (Inr x, ev) \<Rightarrow> (case f x of (r, ev') \<Rightarrow> (r, ev @ ev')))"

subsection \<open>The taxonomy tree (external) and the tracked ranks\<close>

record TaxonomyTree =
  get_lineage :: "int \<Rightarrow> int list option"   \<comment> \<open>\<open>tt.get_lineage([i])[i]\<close>\<close>
  get_rank :: "int \<Rightarrow> string option"         \<comment> \<open>\<open>tt.get_rank([i])[i]\<close>\<close>
  get_name :: "int \<Rightarrow> string option"         \<comment> \<open>\<open>tt.get_name([i])[i]\<close>\<close>

definition taxonomy_ranks :: "(string \<times> string) list" where
  "taxonomy_ranks =
     [(''superkingdom'', ''t_superkingdom''),
      (''kingdom'', ''t_kingdom''),
      (''phylum'', ''t_phylum''),
      (''class'', ''t_class''),
      (''order'', ''t_order''),
      (''family'', ''t_family''),
      (''genus'', ''t_genus''),
      (''species'', ''t_species'')]"

record TaxonInfo =
  hits_at_clade :: int
  hits_at_taxon :: int
  t_id :: int
  t_superkingdom :: "string option"
  t_kingdom :: "string option"
  t_phylum :: "string option"
  t_class :: "string option"
  t_order :: "string option"
  t_family :: "string option"
  t_genus :: "string option"
  t_species :: "string option"

subsection \<open>\<open>get_taxonomy\<close>\<close>

text \<open>
  \<open>taxonomy_dict\<close> is a Python dict whose keys are, from its creation on, the eight
  attribute names of \<open>taxonomy_ranks.values()\<close>: the loop only assigns to keys taken
  from that table. It is modelled as a function from attribute name to value, where
  \<open>None\<close> is Python's \<open>None\<close>; only the eight keys are ever read.
\<close>

type_synonym taxonomy_dict = "string \<Rightarrow> string option"

definition empty_taxonomy_dict :: taxonomy_dict where
  "empty_taxonomy_dict = (\<lambda>_. None)"

text \<open>The body of the loop over the lineage (source lines 66 to 72).\<close>

fun lineage_loop :: "TaxonomyTree \<Rightarrow> int list \<Rightarrow> taxonomy_dict \<Rightarrow> taxonomy_dict traced" where
  "lineage_loop tt [] d = (Inr d, [])"
| "lineage_loop tt (i # is) d =
     (case get_rank tt i of
        None \<Rightarrow> (Inl TaxonomyTreeException, [Call_get_rank i])
      | Some rank \<Rightarrow>
          (case map_of taxonomy_ranks rank of
             None \<Rightarrow> then_do (Inr d, [Call_get_rank i]) (lineage_loop tt is)
           | Some attr \<Rightarrow>
               (case get_name tt i of
                  None \<Rightarrow> (Inl TaxonomyTreeException, [Call_get_rank i, Call_get_name i])
                | Some name \<Rightarrow>
                    then_do (Inr (d(attr := Some name)), [Call_get_rank i, Call_get_name i])
                      (lineage_loop tt is))))"

definition get_taxonomy :: "int \<Rightarrow> TaxonomyTree \<Rightarrow> taxonomy_dict traced" where
  "get_taxonomy tax_id tt =
     (if tax_id = 0 then (Inr empty_taxonomy_dict, [])
      else
        (case get_lineage tt tax_id of
           None \<Rightarrow> (Inl TaxonomyTreeException, [Call_get_lineage tax_id])
         | Some lineage \<Rightarrow>
             then_do (Inr empty_taxonomy_dict, [Call_get_lineage tax_id])
               (lineage_loop tt lineage)))"

subsection \<open>Reading a report line\<close>

text \<open>
  \<open>str.split()\<close> without argument cuts at runs of white space and yields no empty
  string. The white space characters below code point 256 are listed.
\<close>

definition is_space :: "char \<Rightarrow> bool" where
  "is_space c = ((of_char c :: nat) \<in> {9, 10, 11, 12, 13, 28, 29, 30, 31, 32, 133, 160})"

fun split_aux :: "string \<Rightarrow> string \<Rightarrow> string list" where
  "split_aux w [] = (if w = [] then [] else [w])"
| "split_aux w (c # cs) =
     (if is_space c then (if w = [] then split_aux [] cs else w # split_aux [] cs)
      else split_aux (w @ [c]) cs)"

definition split :: "string \<Rightarrow> string list" where
  "split s = split_aux [] s"

text \<open>
  \<open>int(s)\<close> in base 10 on a string without white space: an optional sign, then decimal
  digits, where single underscores may stand between two digits. (The limit on the
  number of digits that recent interpreters put on the conversion is not modelled.)
\<close>

definition is_digit :: "char \<Rightarrow> bool" where
  "is_digit c = (c \<in> set ''0123456789'')"

definition digit_val :: "char \<Rightarrow> nat" where
  "digit_val c = of_char c - 48"

fun int_digits :: "nat \<Rightarrow> string \<Rightarrow> nat option" where
  "int_digits acc [] = Some acc"
| "int_digits acc (c # cs) =
     (if is_digit c then int_digits (acc * 10 + digit_val c) cs
      else if c = CHR ''_'' then
        (case cs of
           [] \<Rightarrow> None
         | d # ds \<Rightarrow> if is_digit d then int_digits (acc * 10 + digit_val d) ds else None)
      else None)"

definition int_unsigned :: "string \<Rightarrow> nat option" where
  "int_unsigned s =
     (case s of
        [] \<Rightarrow> None
      | c # cs \<Rightarrow> if is_digit c then int_digits (digit_val c) cs else None)"

definition py_int :: "string \<Rightarrow> error + int" where
  "py_int s =
     (case s of
        [] \<Rightarrow> Inl ValueError
      | c # cs \<Rightarrow>
          (if c = CHR ''-'' then
             (case int_unsigned cs of None \<Rightarrow> Inl ValueError | Some n \<Rightarrow> Inr (- int n))
           else if c = CHR ''+'' then
             (case int_unsigned cs of None \<Rightarrow> Inl ValueError | Some n \<Rightarrow> Inr (int n))
           else
             (case int_unsigned s of None \<Rightarrow> Inl ValueError | Some n \<Rightarrow> Inr (int n))))"

text \<open>\<open>line[i]\<close> for a non-negative constant \<open>i\<close>.\<close>

definition item :: "string list \<Rightarrow> nat \<Rightarrow> error + string" where
  "item xs i = (if i < length xs then Inr (xs ! i) else Inl IndexError)"

definition int_item :: "string list \<Rightarrow> nat \<Rightarrow> error + int" where
  "int_item xs i = (case item xs i of Inl e \<Rightarrow> Inl e | Inr s \<Rightarrow> py_int s)"

text \<open>
  Source lines 89 to 92: the three integers of a line, read in the order clade count,
  taxon count, tax ID; the first failure is the one raised.
\<close>

definition line_fields :: "string \<Rightarrow> error + (int \<times> int \<times> int)" where
  "line_fields line =
     (let fields = split line in
      case int_item fields 1 of
        Inl e \<Rightarrow> Inl e
      | Inr clade \<Rightarrow>
          (case int_item fields 2 of
             Inl e \<Rightarrow> Inl e
           | Inr taxon \<Rightarrow>
               (case int_item fields 4 of
                  Inl e \<Rightarrow> Inl e
                | Inr tax_id \<Rightarrow> Inr (clade, taxon, tax_id))))"

subsection \<open>\<open>parse_report\<close>\<close>

text \<open>
  \<open>taxon_info_dict\<close> is a Python dict from tax ID to \<open>TaxonInfo\<close> object. A dict keeps
  its keys in insertion order, and the order decides the order of the output rows,
  so it is an association list: \<open>AList.update\<close> replaces the value of a present key in
  place and appends an absent key at the end, as an assignment to a dict item does.
\<close>

type_synonym taxon_info_dict = "(int \<times> TaxonInfo) list"

definition TaxonInfo_of :: "int \<Rightarrow> int \<Rightarrow> int \<Rightarrow> taxonomy_dict \<Rightarrow> TaxonInfo" where
  "TaxonInfo_of clade taxon tax_id d =
     \<lparr> hits_at_clade = clade, hits_at_taxon = taxon, t_id = tax_id,
       t_superkingdom = d ''t_superkingdom'', t_kingdom = d ''t_kingdom'',
       t_phylum = d ''t_phylum'', t_class = d ''t_class'', t_order = d ''t_order'',
       t_family = d ''t_family'', t_genus = d ''t_genus'', t_species = d ''t_species'' \<rparr>"

text \<open>Source lines 94 to 107: what one parsed line does to the dict.\<close>

definition add_hits :: "TaxonomyTree \<Rightarrow> int \<times> int \<times> int \<Rightarrow> taxon_info_dict \<Rightarrow> taxon_info_dict traced" where
  "add_hits tt h taxon_info_dict =
     (case h of (clade, taxon, tax_id) \<Rightarrow>
        (case map_of taxon_info_dict tax_id of
           Some r \<Rightarrow>
             (Inr (AList.update tax_id
                     (r\<lparr>hits_at_clade := hits_at_clade r + clade,
                        hits_at_taxon := hits_at_taxon r + taxon\<rparr>) taxon_info_dict), [])
         | None \<Rightarrow>
             then_do (get_taxonomy tax_id tt)
               (\<lambda>taxon_dict.
                  (Inr (AList.update tax_id (TaxonInfo_of clade taxon tax_id taxon_dict)
                          taxon_info_dict), []))))"

definition parse_line :: "TaxonomyTree \<Rightarrow> string \<Rightarrow> taxon_info_dict \<Rightarrow> taxon_info_dict traced" where
  "parse_line tt line taxon_info_dict =
     (case line_fields line of
        Inl e \<Rightarrow> (Inl e, [])
      | Inr h \<Rightarrow> add_hits tt h taxon_info_dict)"

fun parse_lines :: "TaxonomyTree \<Rightarrow> string list \<Rightarrow> taxon_info_dict \<Rightarrow> taxon_info_dict traced" where
  "parse_lines tt [] taxon_info_dict = (Inr taxon_info_dict, [])"
| "parse_lines tt (line # rest) taxon_info_dict =
     then_do (parse_line tt line taxon_info_dict) (parse_lines tt rest)"

record report_file =
  file_name :: string            \<comment> \<open>\<open>report_file_object.name\<close>\<close>
  file_lines :: "string list"    \<comment> \<open>the lines that iterating over the file yields\<close>

abbreviation quotechar :: char where
  "quotechar \<equiv> CHR 0x22"

definition reading_message :: "report_file \<Rightarrow> string" where
  "reading_message report_file_object =
     ''Reading report file  '' @ [quotechar] @ file_name report_file_object @ [quotechar] @ ''.''"

definition parse_report :: "report_file \<Rightarrow> taxon_info_dict \<Rightarrow> TaxonomyTree \<Rightarrow> taxon_info_dict traced" where
  "parse_report report_file_object taxon_info_dict tt =
     then_do (Inr (), [Log_info (reading_message report_file_object)])
       (\<lambda>_. parse_lines tt (file_lines report_file_object) taxon_info_dict)"

subsection \<open>The data frame and the output file\<close>

text \<open>
  \<open>pd.DataFrame(taxon_info_list).set_index('t_id')\<close> has one row per \<open>TaxonInfo\<close>
  object, in the order of the list, labelled with the object's \<open>t_id\<close>; the labels are
  distinct, being the keys of a dict. The frame is the list of its rows. A frame built
  from the empty list has no columns at all, and \<open>set_index\<close> raises \<open>KeyError\<close>.
\<close>

type_synonym data_frame = "TaxonInfo list"

definition data_frame_of :: "TaxonInfo list \<Rightarrow> error + data_frame" where
  "data_frame_of taxon_info_list =
     (if taxon_info_list = [] then Inl KeyError else Inr taxon_info_list)"

text \<open>Source lines 195 to 198.\<close>

definition drop_unclassified :: "bool \<Rightarrow> data_frame \<Rightarrow> data_frame traced" where
  "drop_unclassified include_unclassified df =
     (if \<not> include_unclassified then
        (if 0 \<in> set (map t_id df) then
           (Inr (filter (\<lambda>r. t_id r \<noteq> 0) df),
            [Log_info ''Removing row for unclassified reads from output file.''])
         else (Inr df, []))
      else (Inr df, []))"

text \<open>\<open>df[taxonomy_cols].isnull().all(axis=1)\<close> for one row.\<close>

definition taxonomically_empty :: "TaxonInfo \<Rightarrow> bool" where
  "taxonomically_empty r =
     (t_superkingdom r = None \<and> t_kingdom r = None \<and> t_phylum r = None \<and> t_class r = None
      \<and> t_order r = None \<and> t_family r = None \<and> t_genus r = None \<and> t_species r = None)"

text \<open>\<open>df.at[tax_id, 't_superkingdom'] = v\<close>.\<close>

definition set_superkingdom :: "int \<Rightarrow> string \<Rightarrow> data_frame \<Rightarrow> data_frame" where
  "set_superkingdom tax_id v df =
     map (\<lambda>r. if t_id r = tax_id then r\<lparr>t_superkingdom := Some v\<rparr> else r) df"

text \<open>
  Source lines 201 to 207. The labels of the rows without any taxonomic level are
  taken from the frame before the loop starts.
\<close>

fun name_rows :: "TaxonomyTree \<Rightarrow> int list \<Rightarrow> data_frame \<Rightarrow> data_frame traced" where
  "name_rows tt [] df = (Inr df, [])"
| "name_rows tt (tax_id # rest) df =
     (if tax_id = 0 then name_rows tt rest (set_superkingdom tax_id ''Unclassified'' df)
      else
        (case get_name tt tax_id of
           None \<Rightarrow> (Inl TaxonomyTreeException, [Call_get_name tax_id])
         | Some tax_id_name \<Rightarrow>
             then_do (Inr (set_superkingdom tax_id tax_id_name df), [Call_get_name tax_id])
               (name_rows tt rest)))"

definition name_empty_rows :: "TaxonomyTree \<Rightarrow> data_frame \<Rightarrow> data_frame traced" where
  "name_empty_rows tt df = name_rows tt (map t_id (filter taxonomically_empty df)) df"

text \<open>
  \<open>str(n)\<close> for an integer. (As for \<open>int\<close>, the limit on the number of digits of recent
  interpreters is not modelled.)
\<close>

definition digit_char :: "nat \<Rightarrow> char" where
  "digit_char n = ''0123456789'' ! n"

function str_nat :: "nat \<Rightarrow> string" where
  "str_nat n = (if n < 10 then [digit_char n] else str_nat (n div 10) @ [digit_char (n mod 10)])"
  by pat_completeness auto
termination
  by (relation "measure id") auto

definition str_int :: "int \<Rightarrow> string" where
  "str_int i = (if i < 0 then CHR ''-'' # str_nat (nat (- i)) else str_nat (nat i))"

text \<open>
  \<open>df[cols].to_csv(output_file, index=False, header=False, sep='\\t')\<close> hands each row,
  with a missing value replaced by the empty string, to a \<open>csv.writer\<close> with quote
  character \<open>"\<close>, minimal quoting and the line terminator \<open>\\n\<close>: a field that holds the
  delimiter, the quote character, a line feed or a carriage return is put between
  quote characters, with each quote character in it doubled.
\<close>

abbreviation tab :: char where
  "tab \<equiv> CHR 0x09"

abbreviation newline :: char where
  "newline \<equiv> CHR 0x0A"

abbreviation carriage_return :: char where
  "carriage_return \<equiv> CHR 0x0D"

definition cols :: "TaxonInfo \<Rightarrow> string list" where
  "cols r =
     str_int (hits_at_taxon r) #
     map (\<lambda>v. case v of None \<Rightarrow> [] | Some s \<Rightarrow> s)
       [t_superkingdom r, t_kingdom r, t_phylum r, t_class r, t_order r, t_family r,
        t_genus r, t_species r]"

definition needs_quotes :: "string \<Rightarrow> bool" where
  "needs_quotes s =
     (tab \<in> set s \<or> quotechar \<in> set s \<or> newline \<in> set s \<or> carriage_return \<in> set s)"

definition csv_field :: "string \<Rightarrow> string" where
  "csv_field s =
     (if needs_quotes s then
        quotechar # concat (map (\<lambda>c. if c = quotechar then [quotechar, quotechar] else [c]) s)
          @ [quotechar]
      else s)"

fun join_tab :: "string list \<Rightarrow> string" where
  "join_tab [] = []"
| "join_tab [s] = s"
| "join_tab (s # t # ss) = s @ tab # join_tab (t # ss)"

definition csv_row :: "string list \<Rightarrow> string" where
  "csv_row cells = join_tab (map csv_field cells)"

definition to_csv :: "data_frame \<Rightarrow> string list" where
  "to_csv df = map (\<lambda>r. csv_row (cols r)) df"

subsection \<open>\<open>kraken2krona\<close>\<close>

record args =
  kraken_report :: "report_file list"
  output_file :: string
  include_unclassified :: bool

text \<open>Source lines 181 to 184.\<close>

fun parse_reports :: "TaxonomyTree \<Rightarrow> report_file list \<Rightarrow> taxon_info_dict \<Rightarrow> taxon_info_dict traced" where
  "parse_reports tt [] taxon_info_dict = (Inr taxon_info_dict, [])"
| "parse_reports tt (f # fs) taxon_info_dict =
     then_do (parse_report f taxon_info_dict tt) (parse_reports tt fs)"

text \<open>
  Source lines 187 to 207: the frame whose columns \<open>cols\<close> are written, after the
  unclassified row has been dropped and the rows without taxonomic level have been
  named.
\<close>

definition taxon_info_frame :: "TaxonomyTree \<Rightarrow> args \<Rightarrow> data_frame traced" where
  "taxon_info_frame tt a =
     then_do (parse_reports tt (kraken_report a) [])
       (\<lambda>taxon_info_dict.
          then_do (data_frame_of (map snd taxon_info_dict), [])
            (\<lambda>taxon_info_df.
               then_do (drop_unclassified (include_unclassified a) taxon_info_df)
                 (name_empty_rows tt)))"

definition saving_message :: "args \<Rightarrow> string" where
  "saving_message a = ''Saving output to '' @ output_file a @ ''.''"

text \<open>
  The result is the list of rows written to \<open>args.output_file\<close>; with \<open>Inl\<close> the program
  has stopped with an exception before \<open>to_csv\<close>, and no file is written.
\<close>

definition kraken2krona :: "TaxonomyTree \<Rightarrow> args \<Rightarrow> string list traced" where
  "kraken2krona tt a =
     then_do (taxon_info_frame tt a)
       (\<lambda>taxon_info_df. (Inr (to_csv taxon_info_df), [Log_info (saving_message a)]))"

section \<open>Notions used to state the properties\<close>

subsection \<open>The counts of the input lines\<close>

text \<open>
  The triples (clade count, taxon count, tax ID) of the lines that can be read, and
  the sums of the counts of one tax ID over them.
\<close>

definition report_hits :: "string list \<Rightarrow> (int \<times> int \<times> int) list" where
  "report_hits ls = concat (map (\<lambda>l. case line_fields l of Inl e \<Rightarrow> [] | Inr h \<Rightarrow> [h]) ls)"

definition all_lines :: "report_file list \<Rightarrow> string list" where
  "all_lines fs = concat (map file_lines fs)"

definition hit_id :: "int \<times> int \<times> int \<Rightarrow> int" where
  "hit_id h = snd (snd h)"

definition clade_sum :: "int \<Rightarrow> (int \<times> int \<times> int) list \<Rightarrow> int" where
  "clade_sum i hs = sum_list (map fst (filter (\<lambda>h. hit_id h = i) hs))"

definition taxon_sum :: "int \<Rightarrow> (int \<times> int \<times> int) list \<Rightarrow> int" where
  "taxon_sum i hs = sum_list (map (\<lambda>h. fst (snd h)) (filter (\<lambda>h. hit_id h = i) hs))"

text \<open>
  The records that the main loop has built once it has read lines with the counts \<open>hs\<close>,
  starting from the records \<open>m\<close>; the lines that can be read; the tax IDs that are
  known already or that the taxonomy tree resolves.
\<close>

definition totals :: "TaxonomyTree \<Rightarrow> (int \<times> int \<times> int) list \<Rightarrow> (int \<rightharpoonup> TaxonInfo) \<Rightarrow> (int \<rightharpoonup> TaxonInfo)" where
  "totals tt hs m i =
     (case m i of
        Some r \<Rightarrow> Some (r\<lparr>hits_at_clade := hits_at_clade r + clade_sum i hs,
                          hits_at_taxon := hits_at_taxon r + taxon_sum i hs\<rparr>)
      | None \<Rightarrow>
          (if i \<in> hit_id ` set hs then
             (case fst (get_taxonomy i tt) of
                Inl e \<Rightarrow> None
              | Inr td \<Rightarrow> Some (TaxonInfo_of (clade_sum i hs) (taxon_sum i hs) i td))
           else None))"

definition resolvable :: "TaxonomyTree \<Rightarrow> (int \<times> int \<times> int) list \<Rightarrow> int set \<Rightarrow> bool" where
  "resolvable tt hs known = (\<forall>h\<in>set hs. hit_id h \<in> known \<or> \<not> isl (fst (get_taxonomy (hit_id h) tt)))"

definition readable :: "string list \<Rightarrow> bool" where
  "readable ls = (\<forall>l\<in>set ls. \<not> isl (line_fields l))"

subsection \<open>Fields, integer texts and malformed lines\<close>

text \<open>
  The fields of a line, said without the loop of \<open>split\<close>: skip the white space, take the
  characters up to the next white space as a field, go on behind it.
\<close>

function whitespace_fields :: "string \<Rightarrow> string list" where
  "whitespace_fields s =
     (case dropWhile is_space s of
        [] \<Rightarrow> []
      | c # cs \<Rightarrow>
          (c # takeWhile (\<lambda>x. \<not> is_space x) cs)
            # whitespace_fields (dropWhile (\<lambda>x. \<not> is_space x) cs))"
  by pat_completeness auto
termination
proof (relation "measure length")
  show "wf (measure length)" by simp
next
  fix s :: string and c cs
  assume "dropWhile is_space s = c # cs"
  then have "length s \<ge> length (c # cs)"
    by (metis length_dropWhile_le)
  moreover have "length (dropWhile (\<lambda>x. \<not> is_space x) cs) \<le> length cs"
    by (rule length_dropWhile_le)
  ultimately show "(dropWhile (\<lambda>x. \<not> is_space x) cs, s) \<in> measure length"
    by simp
qed

declare whitespace_fields.simps [simp del]

text \<open>
  The pieces of a string between the occurrences of a separator; \<open>cut_at sep [] s\<close> is
  what \<open>s.split(sep)\<close> gives.
\<close>

fun cut_at :: "char \<Rightarrow> string \<Rightarrow> string \<Rightarrow> string list" where
  "cut_at sep w [] = [w]"
| "cut_at sep w (c # cs) = (if c = sep then w # cut_at sep [] cs else cut_at sep (w @ [c]) cs)"

text \<open>
  The text of a decimal integer: an optional sign, then groups of at least one digit
  each, with one underscore between two groups.
\<close>

definition digit_group :: "string \<Rightarrow> bool" where
  "digit_group g = (g \<noteq> [] \<and> list_all is_digit g)"

definition digits_with_underscores :: "string \<Rightarrow> bool" where
  "digits_with_underscores s = list_all digit_group (cut_at CHR ''_'' [] s)"

definition integer_text :: "string \<Rightarrow> bool" where
  "integer_text s =
     (case s of
        [] \<Rightarrow> False
      | c # cs \<Rightarrow> if c = CHR ''-'' \<or> c = CHR ''+'' then digits_with_underscores cs
                 else digits_with_underscores s)"

text \<open>
  A line that the specification calls malformed: fewer than five fields, or a field 1,
  2 or 4 that is not the text of an integer.
\<close>

definition malformed :: "string \<Rightarrow> bool" where
  "malformed line =
     (length (whitespace_fields line) < 5
      \<or> \<not> integer_text (whitespace_fields line ! 1)
      \<or> \<not> integer_text (whitespace_fields line ! 2)
      \<or> \<not> integer_text (whitespace_fields line ! 4))"

subsection \<open>The fields of an output row\<close>

text \<open>
  An output row is read back the way a \<open>csv.reader\<close> with the dialect of the writer
  (delimiter tab, quote character \<open>"\<close>, doubled quotes) reads one record.
\<close>

datatype reader_state = START_FIELD | IN_FIELD | IN_QUOTED_FIELD | QUOTE_IN_QUOTED_FIELD

fun csv_read_aux :: "reader_state \<Rightarrow> string \<Rightarrow> string \<Rightarrow> string list" where
  "csv_read_aux st field [] = [field]"
| "csv_read_aux START_FIELD field (c # cs) =
     (if c = quotechar then csv_read_aux IN_QUOTED_FIELD [] cs
      else if c = tab then [] # csv_read_aux START_FIELD [] cs
      else csv_read_aux IN_FIELD [c] cs)"
| "csv_read_aux IN_FIELD field (c # cs) =
     (if c = tab then field # csv_read_aux START_FIELD [] cs
      else csv_read_aux IN_FIELD (field @ [c]) cs)"
| "csv_read_aux IN_QUOTED_FIELD field (c # cs) =
     (if c = quotechar then csv_read_aux QUOTE_IN_QUOTED_FIELD field cs
      else csv_read_aux IN_QUOTED_FIELD (field @ [c]) cs)"
| "csv_read_aux QUOTE_IN_QUOTED_FIELD field (c # cs) =
     (if c = quotechar then csv_read_aux IN_QUOTED_FIELD (field @ [quotechar]) cs
      else if c = tab then field # csv_read_aux START_FIELD [] cs
      else csv_read_aux IN_FIELD (field @ [c]) cs)"

definition csv_read :: "string \<Rightarrow> string list" where
  "csv_read row = csv_read_aux START_FIELD [] row"

text \<open>
  An output row cut at its tabs, as \<open>row.split('\\t')\<close> does, and the taxonomy trees
  none of whose names the writer puts between quote characters.
\<close>

definition tab_fields :: "string \<Rightarrow> string list" where
  "tab_fields row = cut_at tab [] row"

definition plain_names :: "TaxonomyTree \<Rightarrow> bool" where
  "plain_names tt = (\<forall>i n. get_name tt i = Some n \<longrightarrow> \<not> needs_quotes n)"

definition first_rank_field :: "string \<Rightarrow> string" where
  "first_rank_field row = csv_read row ! 1"

definition count_field :: "string \<Rightarrow> string" where
  "count_field row = csv_read row ! 0"

subsection \<open>The order of the passes as the specification describes it\<close>

text \<open>
  The specification lets the naming of the rows without taxonomic level run before
  the unclassified row is dropped. This is the program with these two passes in
  that order, everything else as in \<open>kraken2krona\<close>.
\<close>

definition kraken2krona_naming_first :: "TaxonomyTree \<Rightarrow> args \<Rightarrow> string list traced" where
  "kraken2krona_naming_first tt a =
     then_do (parse_reports tt (kraken_report a) [])
       (\<lambda>taxon_info_dict.
          then_do (data_frame_of (map snd taxon_info_dict), [])
            (\<lambda>taxon_info_df.
               then_do (name_empty_rows tt taxon_info_df)
                 (\<lambda>taxon_info_df.
                    then_do (drop_unclassified (include_unclassified a) taxon_info_df)
                      (\<lambda>taxon_info_df.
                         (Inr (to_csv taxon_info_df), [Log_info (saving_message a)])))))"

subsection \<open>Rank fields, resolved lineages and the naming pass\<close>

text \<open>The eight rank fields of a record, in the order of \<open>taxonomy_ranks\<close>.\<close>

definition ranks :: "TaxonInfo \<Rightarrow> string option list" where
  "ranks r =
     [t_superkingdom r, t_kingdom r, t_phylum r, t_class r, t_order r, t_family r,
      t_genus r, t_species r]"

text \<open>Whether the lineage of a tax ID needs no call any more: 1 if so, else 0.\<close>

definition known :: "taxon_info_dict \<Rightarrow> int \<Rightarrow> nat" where
  "known d x = (if x \<in> dom (map_of d) \<or> x = 0 then 1 else 0)"

text \<open>
  The name that the naming pass gives to a row, the rows after the pass over the
  labels \<open>ids\<close>, the condition under which the pass raises nothing, and the frame
  after the unclassified row has been dropped or kept.
\<close>

definition display_name :: "TaxonomyTree \<Rightarrow> int \<Rightarrow> string" where
  "display_name tt i =
     (if i = 0 then ''Unclassified'' else (case get_name tt i of None \<Rightarrow> [] | Some n \<Rightarrow> n))"

definition named :: "TaxonomyTree \<Rightarrow> int list \<Rightarrow> TaxonInfo \<Rightarrow> TaxonInfo" where
  "named tt ids r =
     (if t_id r \<in> set ids then r\<lparr>t_superkingdom := Some (display_name tt (t_id r))\<rparr> else r)"

definition nameable :: "TaxonomyTree \<Rightarrow> int list \<Rightarrow> bool" where
  "nameable tt ids = list_all (\<lambda>i. i = 0 \<or> get_name tt i \<noteq> None) ids"

definition frame_after_drop :: "bool \<Rightarrow> data_frame \<Rightarrow> data_frame" where
  "frame_after_drop flag df = (if flag then df else filter (\<lambda>r. t_id r \<noteq> 0) df)"

subsection \<open>Example inputs\<close>

text \<open>
  A small taxonomy (root 1, cellular organisms 131567, the superkingdom Bacteria 2, a
  genus 99 and a species 1234), a taxonomy whose superkingdom 7 bears the name
  \<open>Unclassified\<close>, and report files for the scenarios of the specification.
\<close>

definition example_tree :: TaxonomyTree where
  "example_tree =
     \<lparr> get_lineage = (\<lambda>i. if i = 1234 then Some [1234, 2, 131567, 1]
                          else if i = 99 then Some [99, 2, 131567, 1]
                          else if i = 1 then Some [1] else None),
       get_rank = (\<lambda>i. if i = 1234 then Some ''species''
                       else if i = 99 then Some ''genus''
                       else if i = 2 then Some ''superkingdom''
                       else if i = 131567 \<or> i = 1 then Some ''no rank'' else None),
       get_name = (\<lambda>i. if i = 1234 then Some ''X''
                       else if i = 99 then Some ''G''
                       else if i = 2 then Some ''Bacteria''
                       else if i = 1 then Some ''root'' else None) \<rparr>"

definition scenario_A :: "bool \<Rightarrow> args" where
  "scenario_A flag =
     \<lparr> kraken_report = [\<lparr> file_name = ''a.report'',
                           file_lines = [''50.00 12 8 S 1234 Some name''] \<rparr>],
       output_file = ''out.tsv'', include_unclassified = flag \<rparr>"

definition scenario_E :: args where
  "scenario_E =
     \<lparr> kraken_report = [\<lparr> file_name = ''a.report'',
                           file_lines = [''50.00 12 8 S 1234 Some name'', ''50.00 12 8'',
                                         ''1.00 3 3 G 99 G''] \<rparr>],
       output_file = ''out.tsv'', include_unclassified = False \<rparr>"

definition record_99 :: TaxonInfo where
  "record_99 =
     TaxonInfo_of 5 5 99
       ((\<lambda>_. None)(''t_genus'' := Some ''G'', ''t_superkingdom'' := Some ''Bacteria''))"

definition report_B1 :: report_file where
  "report_B1 = \<lparr> file_name = ''b1.report'', file_lines = [''1.00 5 5 G 99 G''] \<rparr>"

definition report_B2 :: report_file where
  "report_B2 = \<lparr> file_name = ''b2.report'', file_lines = [''1.00 7 7 G 99 G''] \<rparr>"

definition scenario_C :: "bool \<Rightarrow> args" where
  "scenario_C flag =
     \<lparr> kraken_report = [\<lparr> file_name = ''c.report'',
                           file_lines = [''10.00 3 3 U 0 unclassified'',
                                         ''90.00 20 1 R 1 root''] \<rparr>],
       output_file = ''out.tsv'', include_unclassified = flag \<rparr>"

definition unclassified_tree :: TaxonomyTree where
  "unclassified_tree =
     \<lparr> get_lineage = (\<lambda>i. if i = 7 then Some [7, 1] else None),
       get_rank = (\<lambda>i. if i = 7 then Some ''superkingdom''
                       else if i = 1 then Some ''no rank'' else None),
       get_name = (\<lambda>i. if i = 7 then Some ''Unclassified''
                       else if i = 1 then Some ''root'' else None) \<rparr>"

definition unclassified_args :: args where
  "unclassified_args =
     \<lparr> kraken_report = [\<lparr> file_name = ''u.report'',
                           file_lines = [''100.00 4 4 D 7 Unclassified''] \<rparr>],
       output_file = ''out.tsv'', include_unclassified = False \<rparr>"

text \<open>A tree with a tab in the name of a species.\<close>

definition tab_tree :: TaxonomyTree where
  "tab_tree =
     \<lparr> get_lineage = (\<lambda>i. if i = 5 then Some [5, 1] else None),
       get_rank = (\<lambda>i. if i = 5 then Some ''species''
                       else if i = 1 then Some ''no rank'' else None),
       get_name = (\<lambda>i. if i = 5 then Some (''a'' @ [tab] @ ''b'')
                       else if i = 1 then Some ''root'' else None) \<rparr>"

definition tab_args :: args where
  "tab_args =
     \<lparr> kraken_report = [\<lparr> file_name = ''t.report'', file_lines = [''100.00 3 3 S 5 n''] \<rparr>],
       output_file = ''out.tsv'', include_unclassified = False \<rparr>"

section \<open>Properties\<close>

subsection \<open>Sequencing\<close>

lemma then_do_Inl [simp]: "then_do (Inl e, ev) f = (Inl e, ev)"
  by (simp add: then_do_def)

lemma then_do_Inr: "then_do (Inr x, ev) f = (fst (f x), ev @ snd (f x))"
  by (simp add: then_do_def split: prod.splits)

lemma then_do_return [simp]: "then_do (Inr x, []) f = f x"
  by (simp add: then_do_def)

lemma then_do_unit [simp]: "then_do m (\<lambda>x. (Inr x, [])) = m"
  by (cases m; cases "fst m") (auto simp: then_do_def)

lemma fst_then_do:
  "fst (then_do m f) = (case fst m of Inl e \<Rightarrow> Inl e | Inr x \<Rightarrow> fst (f x))"
  by (cases m; cases "fst m") (auto simp: then_do_def split: prod.splits)

lemma snd_then_do:
  "snd (then_do m f) = (case fst m of Inl e \<Rightarrow> snd m | Inr x \<Rightarrow> snd m @ snd (f x))"
  by (cases m; cases "fst m") (auto simp: then_do_def split: prod.splits)

lemma parse_lines_Nil [simp]: "parse_lines tt [] = (\<lambda>d. (Inr d, []))"
  by (rule ext) simp

lemma parse_reports_Nil [simp]: "parse_reports tt [] = (\<lambda>d. (Inr d, []))"
  by (rule ext) simp

subsection \<open>The unclassified node is resolved without the taxonomy tree\<close>

lemma lineage_loop_no_lineage_call: "Call_get_lineage i \<notin> set (snd (lineage_loop tt js d))"
  by (induction js arbitrary: d) (auto simp: snd_then_do split: option.splits sum.splits)

lemma get_taxonomy_lineage_calls:
  "Call_get_lineage i \<in> set (snd (get_taxonomy j tt)) \<Longrightarrow> i = j \<and> j \<noteq> 0"
  by (auto simp: get_taxonomy_def snd_then_do lineage_loop_no_lineage_call
      split: if_splits option.splits sum.splits)

lemma add_hits_lineage_calls:
  "Call_get_lineage i \<in> set (snd (add_hits tt h d)) \<Longrightarrow> i = hit_id h \<and> i \<noteq> 0"
  by (cases h)
     (auto simp: add_hits_def hit_id_def snd_then_do split: option.splits sum.splits
       dest: get_taxonomy_lineage_calls)

lemma parse_lines_lineage_calls:
  "Call_get_lineage i \<in> set (snd (parse_lines tt ls d)) \<Longrightarrow> i \<noteq> 0"
  by (induction ls arbitrary: d)
     (auto simp: snd_then_do parse_line_def split: sum.splits dest: add_hits_lineage_calls)

lemma parse_reports_lineage_calls:
  "Call_get_lineage i \<in> set (snd (parse_reports tt fs d)) \<Longrightarrow> i \<noteq> 0"
  by (induction fs arbitrary: d)
     (auto simp: snd_then_do parse_report_def split: sum.splits dest: parse_lines_lineage_calls)

lemma name_rows_lineage_calls: "Call_get_lineage i \<notin> set (snd (name_rows tt ids df))"
  by (induction ids arbitrary: df) (auto simp: snd_then_do split: option.splits sum.splits)

lemma kraken2krona_lineage_calls:
  "Call_get_lineage i \<in> set (snd (kraken2krona tt a)) \<Longrightarrow> i \<noteq> 0"
  by (auto simp: kraken2krona_def taxon_info_frame_def snd_then_do fst_then_do
       data_frame_of_def drop_unclassified_def name_empty_rows_def name_rows_lineage_calls
      split: sum.splits if_splits dest: parse_reports_lineage_calls)

text \<open>
  Claim C2. The lineage of tax ID 0 is the dictionary with all eight ranks absent, and
  computing it makes no call to the taxonomy tree, whatever the tree is. In a whole
  run, with the flag for the unclassified reads set or not, the lineage of tax ID 0
  is never asked from the tree.
\<close>

theorem unclassified_short_circuit:
  "get_taxonomy 0 tt = (Inr (\<lambda>_. None), [])
   \<and> Call_get_lineage 0 \<notin> set (snd (kraken2krona tt a))"
  using kraken2krona_lineage_calls [of 0 tt a]
  by (auto simp: get_taxonomy_def empty_taxonomy_dict_def)

subsection \<open>No record, no output file\<close>

lemma parse_reports_no_lines:
  "\<forall>f\<in>set fs. file_lines f = [] \<Longrightarrow>
   parse_reports tt fs d = (Inr d, map (\<lambda>f. Log_info (reading_message f)) fs)"
  by (induction fs arbitrary: d) (simp_all add: parse_report_def then_do_Inr)

text \<open>
  Claim C10. When every report file has no line, the dict of records is empty after the
  main loop, building the frame raises \<open>KeyError\<close>, and the run stops there: the only
  events are the messages about the files read, and no row is written.
\<close>

theorem empty_record_set_fails:
  assumes "\<forall>f\<in>set (kraken_report a). file_lines f = []"
  shows "parse_reports tt (kraken_report a) [] =
           (Inr [], map (\<lambda>f. Log_info (reading_message f)) (kraken_report a))
         \<and> kraken2krona tt a =
           (Inl KeyError, map (\<lambda>f. Log_info (reading_message f)) (kraken_report a))"
  using parse_reports_no_lines [OF assms, of tt "[]"]
  by (simp add: kraken2krona_def taxon_info_frame_def data_frame_of_def then_do_Inr)

theorem empty_record_set_fails_witness:
  "map file_lines [\<lparr> file_name = ''a.report'', file_lines = [] \<rparr>] = [[]]
   \<and> kraken2krona example_tree
     \<lparr> kraken_report = [\<lparr> file_name = ''a.report'', file_lines = [] \<rparr>],
       output_file = ''out.tsv'', include_unclassified = True \<rparr>
   = (Inl KeyError, [Log_info (''Reading report file  '' @ [quotechar] @ ''a.report'' @ [quotechar] @ ''.'')])"
  using empty_record_set_fails [of "\<lparr> kraken_report = [\<lparr> file_name = ''a.report'', file_lines = [] \<rparr>],
       output_file = ''out.tsv'', include_unclassified = True \<rparr>" example_tree]
  by (simp add: reading_message_def)

subsection \<open>Scenario A\<close>

lemma scenario_A_dict:
  "fst (parse_reports tt (kraken_report (scenario_A flag)) []) = fst (add_hits tt (12, 8, 1234) [])"
  by (simp add: scenario_A_def parse_report_def parse_line_def line_fields_def split_def
      is_space_def int_item_def item_def py_int_def int_unsigned_def is_digit_def
      digit_val_def fst_then_do)

lemma example_tree_1234:
  "fst (get_taxonomy 1234 example_tree) =
     Inr ((\<lambda>_. None)(''t_species'' := Some ''X'', ''t_superkingdom'' := Some ''Bacteria''))"
  by (simp add: get_taxonomy_def example_tree_def taxonomy_ranks_def empty_taxonomy_dict_def
      then_do_Inr)

text \<open>
  Claim C6, as amended. For the single input line \<open>50.00 12 8 S 1234 Some name\<close>, when the
  lineage of 1234 resolves the superkingdom to \<open>Bacteria\<close>, the species to \<open>X\<close> and no
  other rank, the program writes exactly one row: \<open>8\<close>, a tab, \<open>Bacteria\<close>, seven tabs,
  \<open>X\<close>. The superkingdom stands in the second field, next to the count.
\<close>

theorem scenario_A_row:
  assumes "fst (get_taxonomy 1234 tt) = Inr d"
    and "d ''t_superkingdom'' = Some ''Bacteria''" and "d ''t_species'' = Some ''X''"
    and "d ''t_kingdom'' = None" and "d ''t_phylum'' = None" and "d ''t_class'' = None"
    and "d ''t_order'' = None" and "d ''t_family'' = None" and "d ''t_genus'' = None"
  shows "fst (kraken2krona tt (scenario_A flag)) =
           Inr [''8'' @ [tab] @ ''Bacteria'' @ [tab, tab, tab, tab, tab, tab, tab] @ ''X'']"
  using assms
  by (cases "get_taxonomy 1234 tt")
     (simp add: kraken2krona_def taxon_info_frame_def fst_then_do scenario_A_dict add_hits_def
      TaxonInfo_of_def data_frame_of_def drop_unclassified_def name_empty_rows_def
      taxonomically_empty_def to_csv_def cols_def csv_row_def csv_field_def needs_quotes_def
      str_int_def digit_char_def)

theorem scenario_A_row_witness:
  "fst (get_taxonomy 1234 example_tree) =
     Inr ((\<lambda>_. None)(''t_species'' := Some ''X'', ''t_superkingdom'' := Some ''Bacteria''))
   \<and> fst (kraken2krona example_tree (scenario_A False)) =
     Inr [''8'' @ [tab] @ ''Bacteria'' @ [tab, tab, tab, tab, tab, tab, tab] @ ''X'']"
  using scenario_A_row [OF example_tree_1234, of False] by (simp add: example_tree_1234)

text \<open>
  The row of the specification, with two tabs after the count and six before the
  species, is not the row written.
\<close>

theorem scenario_A_row_counterexample:
  "fst (get_taxonomy 1234 example_tree) =
     Inr ((\<lambda>_. None)(''t_species'' := Some ''X'', ''t_superkingdom'' := Some ''Bacteria''))
   \<and> fst (kraken2krona example_tree (scenario_A False)) \<noteq>
       Inr [''8'' @ [tab, tab] @ ''Bacteria'' @ [tab, tab, tab, tab, tab, tab] @ ''X'']"
  by (simp add: example_tree_1234) code_simp

subsection \<open>Malformed lines\<close>

lemma then_do_assoc: "then_do (then_do m f) g = then_do m (\<lambda>x. then_do (f x) g)"
  by (cases m; cases "fst m") (auto simp: then_do_def split: prod.splits sum.splits)

lemma parse_lines_Cons: "parse_lines tt (x # xs) = (\<lambda>d. then_do (parse_line tt x d) (parse_lines tt xs))"
  by (rule ext) simp

lemma parse_lines_append_fun:
  "parse_lines tt (xs @ ys) = (\<lambda>d. then_do (parse_lines tt xs d) (parse_lines tt ys))"
proof (induction xs)
  case Nil
  show ?case by simp
next
  case (Cons x xs)
  show ?case
    unfolding append_Cons parse_lines_Cons [of tt x "xs @ ys"] Cons.IH
    by (simp add: then_do_assoc)
qed

lemma parse_lines_append:
  "parse_lines tt (xs @ ys) d = then_do (parse_lines tt xs d) (parse_lines tt ys)"
  by (simp add: parse_lines_append_fun)

lemma fst_parse_reports:
  "fst (parse_reports tt fs d) = fst (parse_lines tt (all_lines fs) d)"
proof (induction fs arbitrary: d)
  case Nil
  show ?case by (simp add: all_lines_def)
next
  case (Cons f fs)
  have "all_lines (f # fs) = file_lines f @ all_lines fs"
    by (simp add: all_lines_def)
  then show ?case
    using Cons.IH
    by (simp add: parse_report_def parse_lines_append fst_then_do then_do_Inr split: sum.splits)
qed

lemma split_aux_fields:
  "split_aux w s =
     (if w = [] then whitespace_fields s
      else (w @ takeWhile (\<lambda>x. \<not> is_space x) s)
             # whitespace_fields (dropWhile (\<lambda>x. \<not> is_space x) s))"
proof (induction s arbitrary: w)
  case Nil
  show ?case by (simp add: whitespace_fields.simps [of "[]"])
next
  case (Cons c s)
  show ?case
  proof (cases "is_space c")
    case True
    then show ?thesis
      by (simp add: Cons.IH whitespace_fields.simps [of "c # s"])
         (simp add: whitespace_fields.simps [of s])
  next
    case False
    then show ?thesis
      by (simp add: Cons.IH whitespace_fields.simps [of "c # s"])
  qed
qed

lemma split_fields: "split s = whitespace_fields s"
  by (simp add: split_def split_aux_fields)

lemma not_digit_signs [simp]:
  "\<not> is_digit CHR ''_''" "\<not> is_digit CHR ''-''" "\<not> is_digit CHR ''+''"
  by (simp_all add: is_digit_def)

lemma digit_group_Nil [simp]: "\<not> digit_group []"
  by (simp add: digit_group_def)

lemma cut_at_bad_start:
  "\<not> list_all is_digit w \<Longrightarrow> \<not> list_all digit_group (cut_at CHR ''_'' w xs)"
  by (induction xs arbitrary: w) (simp_all add: digit_group_def)

lemma int_digits_accepts:
  "digit_group w \<Longrightarrow>
   int_digits acc cs \<noteq> None \<longleftrightarrow> list_all digit_group (cut_at CHR ''_'' w cs)"
proof (induction acc cs arbitrary: w rule: int_digits.induct)
  case (1 acc)
  then show ?case by simp
next
  case (2 acc c cs)
  show ?case
  proof (cases "is_digit c")
    case True
    then have "c \<noteq> CHR ''_''" by auto
    moreover from True 2(3) have "digit_group (w @ [c])"
      by (simp add: digit_group_def)
    ultimately show ?thesis
      using True 2(1) [OF True, of "w @ [c]"] by simp
  next
    case False
    show ?thesis
    proof (cases "c = CHR ''_''")
      case c: True
      show ?thesis
      proof (cases cs)
        case Nil
        with c show ?thesis by (simp add: digit_group_def)
      next
        case (Cons d ds)
        show ?thesis
        proof (cases "is_digit d")
          case True
          then have "d \<noteq> CHR ''_''" by auto
          moreover from True have "digit_group [d]"
            by (simp add: digit_group_def)
          ultimately show ?thesis
            using 2(2) [OF False c Cons True, of "[d]"] False c Cons True 2(3) by simp
        next
          case nd: False
          then have "\<not> list_all digit_group (cut_at CHR ''_'' [d] ds)"
            by (intro cut_at_bad_start) simp
          with False c Cons nd show ?thesis
            by simp
        qed
      qed
    next
      case nc: False
      from False have "\<not> list_all digit_group (cut_at CHR ''_'' (w @ [c]) cs)"
        by (intro cut_at_bad_start) simp
      with False nc show ?thesis by simp
    qed
  qed
qed

lemma int_unsigned_accepts: "int_unsigned s \<noteq> None \<longleftrightarrow> digits_with_underscores s"
proof (cases s)
  case Nil
  then show ?thesis
    by (simp add: int_unsigned_def digits_with_underscores_def digit_group_def)
next
  case (Cons c cs)
  show ?thesis
  proof (cases "is_digit c")
    case True
    then have "c \<noteq> CHR ''_''" by auto
    moreover from True have "digit_group [c]" by (simp add: digit_group_def)
    ultimately show ?thesis
      using Cons True int_digits_accepts [of "[c]" "digit_val c" cs]
      by (simp add: int_unsigned_def digits_with_underscores_def)
  next
    case False
    show ?thesis
    proof (cases "c = CHR ''_''")
      case True
      with Cons False show ?thesis
        by (simp add: int_unsigned_def digits_with_underscores_def digit_group_def)
    next
      case nc: False
      from False have "\<not> list_all digit_group (cut_at CHR ''_'' [c] cs)"
        by (intro cut_at_bad_start) simp
      with Cons False nc show ?thesis
        by (simp add: int_unsigned_def digits_with_underscores_def)
    qed
  qed
qed

lemma py_int_rejects: "isl (py_int s) \<longleftrightarrow> \<not> integer_text s"
proof (cases s)
  case Nil
  then show ?thesis by (simp add: py_int_def integer_text_def)
next
  case (Cons c cs)
  show ?thesis
  proof (cases "c = CHR ''-'' \<or> c = CHR ''+''")
    case True
    with Cons int_unsigned_accepts [of cs] show ?thesis
      by (cases "int_unsigned cs") (auto simp: py_int_def integer_text_def)
  next
    case False
    with Cons int_unsigned_accepts [of s] show ?thesis
      by (cases "int_unsigned s") (auto simp: py_int_def integer_text_def)
  qed
qed

lemma py_int_Inl: "py_int s = Inl e \<Longrightarrow> e = ValueError"
  by (auto simp: py_int_def split: list.splits option.splits if_splits)

lemma py_int_error: "isl (py_int s) \<Longrightarrow> py_int s = Inl ValueError"
  by (cases "py_int s") (auto dest: py_int_Inl)

lemma malformed_line_fields:
  assumes "malformed line"
  shows "line_fields line = Inl IndexError \<or> line_fields line = Inl ValueError"
proof (cases "length (split line) < 5")
  case True
  then show ?thesis
    by (auto simp: line_fields_def int_item_def item_def Let_def
        split: sum.splits dest: py_int_Inl)
next
  case False
  with assms show ?thesis
    by (auto simp: malformed_def line_fields_def int_item_def item_def Let_def
        py_int_rejects [symmetric] split_fields [symmetric]
        split: sum.splits dest: py_int_error py_int_Inl)
qed

lemma parse_lines_stop:
  "line_fields line = Inl e \<Longrightarrow>
   parse_lines tt (pre @ line # post) d = then_do (parse_lines tt pre d) (\<lambda>_. (Inl e, []))"
  by (simp add: parse_lines_append parse_lines_Cons parse_line_def)

text \<open>
  Claim C5. A line with fewer than five white-space separated fields, or with a field 1,
  2 or 4 that is not the text of an integer, raises \<open>IndexError\<close> or \<open>ValueError\<close>. The
  loop over the lines of the file stops there: what follows the line in the file has no
  influence on the result or on the events. A run that meets such a line in any of its
  files ends with the exception, and nothing is written.
\<close>

theorem malformed_line_aborts:
  assumes "malformed line"
  shows "(line_fields line = Inl IndexError \<or> line_fields line = Inl ValueError)
         \<and> isl (fst (parse_lines tt (pre @ line # post) d))
         \<and> parse_lines tt (pre @ line # post) d = parse_lines tt (pre @ [line]) d
         \<and> (line \<in> set (all_lines (kraken_report a)) \<longrightarrow> isl (fst (kraken2krona tt a)))"
proof -
  from malformed_line_fields [OF assms]
  obtain e where e: "line_fields line = Inl e" and "e = IndexError \<or> e = ValueError"
    by blast
  have stop: "parse_lines tt (xs @ line # ys) d' = then_do (parse_lines tt xs d') (\<lambda>_. (Inl e, []))"
    for xs ys d'
    by (rule parse_lines_stop [OF e])
  have fails: "isl (fst (parse_lines tt (xs @ line # ys) d'))" for xs ys d'
    by (simp add: stop fst_then_do split: sum.splits)
  have run: "isl (fst (kraken2krona tt a))" if "line \<in> set (all_lines (kraken_report a))"
  proof -
    from that obtain xs ys where "all_lines (kraken_report a) = xs @ line # ys"
      by (auto simp: in_set_conv_decomp)
    then have "isl (fst (parse_reports tt (kraken_report a) []))"
      using fails [of xs ys "[]"] by (simp add: fst_parse_reports)
    then show ?thesis
      by (auto simp: kraken2krona_def taxon_info_frame_def fst_then_do split: sum.splits)
  qed
  from e \<open>e = IndexError \<or> e = ValueError\<close> fails [of pre post d] stop [of pre post d]
    stop [of pre "[]" d] run
  show ?thesis by auto
qed

theorem malformed_line_aborts_witness:
  "malformed ''50.00 12 8''
   \<and> line_fields ''50.00 12 8'' = Inl IndexError
   \<and> parse_lines example_tree [''50.00 12 8 S 1234 Some name'', ''50.00 12 8'', ''1.00 3 3 G 99 G''] []
       = parse_lines example_tree [''50.00 12 8 S 1234 Some name'', ''50.00 12 8''] []
   \<and> ''50.00 12 8'' \<in> set (all_lines (kraken_report scenario_E))
   \<and> isl (fst (kraken2krona example_tree scenario_E))
   \<and> malformed ''1.00 x 8 S 5 n''
   \<and> line_fields ''1.00 x 8 S 5 n'' = Inl ValueError
   \<and> malformed ''1.00 3 8.5 S 5 n''
   \<and> line_fields ''1.00 3 8.5 S 5 n'' = Inl ValueError
   \<and> isl (fst (parse_lines example_tree [''1.00 5 5 G 99 G'', ''1.00 3 8.5 S 5 n''] []))"
proof -
  have m: "malformed ''50.00 12 8''"
    by (simp add: malformed_def split_fields [symmetric] split_def is_space_def)
  note w = malformed_line_aborts [OF m, of example_tree "[''50.00 12 8 S 1234 Some name'']"
      "[''1.00 3 3 G 99 G'']" "[]" scenario_E]
  have l: "line_fields ''50.00 12 8'' = Inl IndexError"
    by (simp add: line_fields_def split_def is_space_def int_item_def item_def py_int_def
        int_unsigned_def is_digit_def digit_val_def)
  have s: "''50.00 12 8'' \<in> set (all_lines (kraken_report scenario_E))"
    by (simp add: all_lines_def scenario_E_def)
  from w s have run: "isl (fst (kraken2krona example_tree scenario_E))"
    by blast
  from w
  have stop: "parse_lines example_tree ([''50.00 12 8 S 1234 Some name''] @ ''50.00 12 8'' # [''1.00 3 3 G 99 G'']) []
       = parse_lines example_tree ([''50.00 12 8 S 1234 Some name''] @ [''50.00 12 8'']) []"
    by blast
  have mx: "malformed ''1.00 x 8 S 5 n''"
    by (simp add: malformed_def split_fields [symmetric] split_def is_space_def
        integer_text_def digits_with_underscores_def digit_group_def is_digit_def)
  have mf: "malformed ''1.00 3 8.5 S 5 n''"
    by (simp add: malformed_def split_fields [symmetric] split_def is_space_def
        integer_text_def digits_with_underscores_def digit_group_def is_digit_def)
  note wx = malformed_line_aborts [OF mx, of example_tree "[]" "[]" "[]" scenario_E]
  note wf = malformed_line_aborts [OF mf, of example_tree "[''1.00 5 5 G 99 G'']" "[]" "[]"
      scenario_E]
  have "line_fields ''1.00 x 8 S 5 n'' \<noteq> Inl IndexError"
    by (simp add: line_fields_def split_def is_space_def int_item_def item_def py_int_def
        int_unsigned_def is_digit_def digit_val_def)
  with wx have lx: "line_fields ''1.00 x 8 S 5 n'' = Inl ValueError"
    by blast
  have "line_fields ''1.00 3 8.5 S 5 n'' \<noteq> Inl IndexError"
    by (simp add: line_fields_def split_def is_space_def int_item_def item_def py_int_def
        int_unsigned_def is_digit_def digit_val_def)
  with wf have lf: "line_fields ''1.00 3 8.5 S 5 n'' = Inl ValueError"
    by blast
  from wf have "isl (fst (parse_lines example_tree ([''1.00 5 5 G 99 G''] @ ''1.00 3 8.5 S 5 n'' # []) []))"
    by blast
  then have runf: "isl (fst (parse_lines example_tree [''1.00 5 5 G 99 G'', ''1.00 3 8.5 S 5 n''] []))"
    by simp
  from stop have stop': "parse_lines example_tree [''50.00 12 8 S 1234 Some name'', ''50.00 12 8'', ''1.00 3 3 G 99 G''] []
       = parse_lines example_tree [''50.00 12 8 S 1234 Some name'', ''50.00 12 8''] []"
    by simp
  from m l stop' s run mx lx mf lf runf show ?thesis
    by blast
qed

subsection \<open>The counters grow with non-negative counts\<close>

lemma add_hits_present:
  "map_of d x = Some r \<Longrightarrow>
   add_hits tt (c, t, x) d =
     (Inr (AList.update x (r\<lparr>hits_at_clade := hits_at_clade r + c,
                              hits_at_taxon := hits_at_taxon r + t\<rparr>) d), [])"
  by (simp add: add_hits_def)

lemma add_hits_absent:
  "map_of d x = None \<Longrightarrow>
   add_hits tt (c, t, x) d =
     then_do (get_taxonomy x tt) (\<lambda>td. (Inr (AList.update x (TaxonInfo_of c t x td) d), []))"
  by (simp add: add_hits_def)

text \<open>
  Claim C9, as amended. When the clade count and the taxon count of a line are not
  negative, ingesting the line leaves every record in the dict, and neither of its two
  counters is smaller afterwards than before.
\<close>

theorem counters_monotone:
  assumes "line_fields line = Inr (clade, taxon, tax_id)" and "0 \<le> clade" and "0 \<le> taxon"
    and "fst (parse_line tt line d) = Inr d'" and "map_of d i = Some r"
  shows "\<exists>r'. map_of d' i = Some r' \<and> hits_at_clade r \<le> hits_at_clade r'
              \<and> hits_at_taxon r \<le> hits_at_taxon r'"
proof (cases "map_of d tax_id")
  case None
  with assms have "i \<noteq> tax_id" by auto
  with assms None show ?thesis
    by (auto simp: parse_line_def add_hits_absent fst_then_do update_conv' split: sum.splits)
next
  case (Some r0)
  with assms show ?thesis
    by (cases "i = tax_id") (auto simp: parse_line_def add_hits_present update_conv')
qed

theorem counters_monotone_witness:
  "line_fields ''1.00 7 7 G 99 G'' = Inr (7, 7, 99)
   \<and> fst (parse_line example_tree ''1.00 7 7 G 99 G'' [(99, record_99)])
       = Inr [(99, record_99\<lparr>hits_at_clade := 12, hits_at_taxon := 12\<rparr>)]
   \<and> (\<exists>r'. map_of [(99, record_99\<lparr>hits_at_clade := 12, hits_at_taxon := 12\<rparr>)] 99 = Some r'
            \<and> hits_at_clade record_99 \<le> hits_at_clade r'
            \<and> hits_at_taxon record_99 \<le> hits_at_taxon r')"
proof -
  have l: "line_fields ''1.00 7 7 G 99 G'' = Inr (7, 7, 99)"
    by (simp add: line_fields_def split_def is_space_def int_item_def item_def py_int_def
        int_unsigned_def is_digit_def digit_val_def)
  have p: "fst (parse_line example_tree ''1.00 7 7 G 99 G'' [(99, record_99)])
       = Inr [(99, record_99\<lparr>hits_at_clade := 12, hits_at_taxon := 12\<rparr>)]"
    by (simp add: parse_line_def l add_hits_def record_99_def TaxonInfo_of_def)
  from counters_monotone [OF l _ _ p, of 99 record_99] l p show ?thesis
    by simp
qed

text \<open>A line with negative counts lowers both counters of a record.\<close>

theorem counters_monotone_counterexample:
  "fst (parse_lines example_tree [''1.00 5 5 G 99 G''] []) = Inr [(99, record_99)]
   \<and> fst (parse_lines example_tree [''1.00 5 5 G 99 G'', ''0.00 -3 -3 G 99 G''] [])
       = Inr [(99, record_99\<lparr>hits_at_clade := 2, hits_at_taxon := 2\<rparr>)]
   \<and> hits_at_clade (record_99\<lparr>hits_at_clade := 2, hits_at_taxon := 2\<rparr>) < hits_at_clade record_99
   \<and> hits_at_taxon (record_99\<lparr>hits_at_clade := 2, hits_at_taxon := 2\<rparr>) < hits_at_taxon record_99"
proof -
  have l1: "line_fields ''1.00 5 5 G 99 G'' = Inr (5, 5, 99)"
    by (simp add: line_fields_def split_def is_space_def int_item_def item_def py_int_def
        int_unsigned_def is_digit_def digit_val_def)
  have l2: "line_fields ''0.00 -3 -3 G 99 G'' = Inr (-3, -3, 99)"
    by (simp add: line_fields_def split_def is_space_def int_item_def item_def py_int_def
        int_unsigned_def is_digit_def digit_val_def)
  have g: "get_taxonomy 99 example_tree =
      (Inr ((\<lambda>_. None)(''t_genus'' := Some ''G'', ''t_superkingdom'' := Some ''Bacteria'')),
       [Call_get_lineage 99, Call_get_rank 99, Call_get_name 99, Call_get_rank 2,
        Call_get_name 2, Call_get_rank 131567, Call_get_rank 1])"
    by (simp add: get_taxonomy_def example_tree_def taxonomy_ranks_def empty_taxonomy_dict_def
        then_do_Inr)
  have a: "fst (add_hits example_tree (5, 5, 99) []) = Inr [(99, record_99)]"
    by (simp add: add_hits_def g then_do_Inr record_99_def)
  have b: "add_hits example_tree (-3, -3, 99) [(99, record_99)]
       = (Inr [(99, record_99\<lparr>hits_at_clade := 2, hits_at_taxon := 2\<rparr>)], [])"
    by (simp add: add_hits_def record_99_def TaxonInfo_of_def)
  show ?thesis
    using a b by (simp add: parse_line_def l1 l2 fst_then_do record_99_def TaxonInfo_of_def)
qed

subsection \<open>What the main loop computes\<close>

lemma clade_sum_simps [simp]:
  "clade_sum i [] = 0"
  "clade_sum i (h # hs) = (if hit_id h = i then fst h + clade_sum i hs else clade_sum i hs)"
  "clade_sum i (hs @ hs') = clade_sum i hs + clade_sum i hs'"
  by (simp_all add: clade_sum_def)

lemma taxon_sum_simps [simp]:
  "taxon_sum i [] = 0"
  "taxon_sum i (h # hs) = (if hit_id h = i then fst (snd h) + taxon_sum i hs else taxon_sum i hs)"
  "taxon_sum i (hs @ hs') = taxon_sum i hs + taxon_sum i hs'"
  by (simp_all add: taxon_sum_def)

lemma clade_sum_mset: "clade_sum i hs = sum_mset (image_mset fst (filter_mset (\<lambda>h. hit_id h = i) (mset hs)))"
  by (simp add: clade_sum_def flip: sum_mset_sum_list)

lemma taxon_sum_mset:
  "taxon_sum i hs = sum_mset (image_mset (\<lambda>h. fst (snd h)) (filter_mset (\<lambda>h. hit_id h = i) (mset hs)))"
  by (simp add: taxon_sum_def flip: sum_mset_sum_list)

lemma sum_absent:
  "i \<notin> hit_id ` set hs \<Longrightarrow> clade_sum i hs = 0 \<and> taxon_sum i hs = 0"
  by (induction hs) auto

lemma totals_Nil [simp]: "totals tt [] m = m"
  by (auto simp: totals_def fun_eq_iff split: option.splits)

lemma totals_append: "totals tt hs' (totals tt hs m) = totals tt (hs @ hs') m"
proof (rule ext)
  fix i
  show "totals tt hs' (totals tt hs m) i = totals tt (hs @ hs') m i"
  proof (cases "m i")
    case (Some r)
    then show ?thesis by (simp add: totals_def)
  next
    case None
    show ?thesis
    proof (cases "i \<in> hit_id ` set hs")
      case True
      with None show ?thesis
        by (cases "fst (get_taxonomy i tt)") (simp_all add: totals_def TaxonInfo_of_def image_Un)
    next
      case False
      with None sum_absent [OF False] show ?thesis
        by (auto simp: totals_def split: sum.splits)
    qed
  qed
qed

lemma totals_mset: "mset hs' = mset hs \<Longrightarrow> totals tt hs' m = totals tt hs m"
proof -
  assume eq: "mset hs' = mset hs"
  then have "set hs' = set hs" by (rule mset_eq_setD)
  moreover have "clade_sum i hs' = clade_sum i hs" for i
    unfolding clade_sum_mset eq ..
  moreover have "taxon_sum i hs' = taxon_sum i hs" for i
    unfolding taxon_sum_mset eq ..
  ultimately show ?thesis
    by (intro ext) (simp add: totals_def split: option.splits sum.splits)
qed

lemma add_hits_totals:
  assumes "fst (add_hits tt h d) = Inr d'"
  shows "map_of d' = totals tt [h] (map_of d)"
    and "hit_id h \<in> dom (map_of d) \<or> \<not> isl (fst (get_taxonomy (hit_id h) tt))"
proof -
  obtain c t x where h: "h = (c, t, x)" by (cases h)
  show "map_of d' = totals tt [h] (map_of d)"
  proof (cases "map_of d x")
    case (Some r)
    with assms h have "d' = AList.update x (r\<lparr>hits_at_clade := hits_at_clade r + c,
                              hits_at_taxon := hits_at_taxon r + t\<rparr>) d"
      by (simp add: add_hits_present)
    with Some h show ?thesis
      by (intro ext) (simp add: update_conv' totals_def hit_id_def split: option.splits)
  next
    case None
    with assms h obtain td where td: "fst (get_taxonomy x tt) = Inr td"
      and "d' = AList.update x (TaxonInfo_of c t x td) d"
      by (auto simp: add_hits_absent fst_then_do split: sum.splits)
    with None h show ?thesis
      by (intro ext) (simp add: update_conv' totals_def hit_id_def split: option.splits)
  qed
  show "hit_id h \<in> dom (map_of d) \<or> \<not> isl (fst (get_taxonomy (hit_id h) tt))"
    using assms h
    by (cases "map_of d x")
       (auto simp: add_hits_absent hit_id_def fst_then_do split: sum.splits)
qed

lemma add_hits_succeeds:
  assumes "hit_id h \<in> dom (map_of d) \<or> \<not> isl (fst (get_taxonomy (hit_id h) tt))"
  shows "\<exists>d'. fst (add_hits tt h d) = Inr d'"
proof -
  obtain c t x where h: "h = (c, t, x)" by (cases h)
  show ?thesis
  proof (cases "map_of d x")
    case (Some r)
    then show ?thesis by (simp add: h add_hits_present)
  next
    case None
    with assms h show ?thesis
      by (cases "fst (get_taxonomy x tt)")
         (auto simp: add_hits_absent hit_id_def fst_then_do)
  qed
qed

lemma dom_totals: "dom (totals tt hs m) \<supseteq> dom m"
  by (auto simp: totals_def split: option.splits)

lemma report_hits_simps [simp]:
  "report_hits [] = []"
  "report_hits (l # ls) = (case line_fields l of Inl e \<Rightarrow> [] | Inr h \<Rightarrow> [h]) @ report_hits ls"
  "report_hits (ls @ ls') = report_hits ls @ report_hits ls'"
  by (simp_all add: report_hits_def)

lemma parse_lines_totals:
  "fst (parse_lines tt ls d) = Inr d' \<Longrightarrow>
   map_of d' = totals tt (report_hits ls) (map_of d) \<and> readable ls
   \<and> resolvable tt (report_hits ls) (dom (map_of d))"
proof (induction ls arbitrary: d)
  case Nil
  then show ?case by (simp add: readable_def resolvable_def)
next
  case (Cons l ls)
  from Cons.prems obtain h d1 where l: "line_fields l = Inr h"
    and d1: "fst (add_hits tt h d) = Inr d1" and rest: "fst (parse_lines tt ls d1) = Inr d'"
    by (auto simp: fst_then_do parse_line_def split: sum.splits)
  note a = add_hits_totals [OF d1]
  note r = Cons.IH [OF rest]
  have "map_of d' = totals tt (report_hits (l # ls)) (map_of d)"
    using r a(1) l by (simp add: totals_append)
  moreover have "readable (l # ls)"
    using r l by (simp add: readable_def)
  moreover have "resolvable tt (report_hits (l # ls)) (dom (map_of d))"
  proof -
    have "dom (map_of d1) = insert (hit_id h) (dom (map_of d))"
      using a
      by (auto simp: totals_def hit_id_def split: option.splits if_splits sum.splits)
    with r a(2) l show ?thesis
      by (auto simp: resolvable_def)
  qed
  ultimately show ?case by blast
qed

lemma resolvable_mono: "resolvable tt hs A \<Longrightarrow> A \<subseteq> B \<Longrightarrow> resolvable tt hs B"
  by (auto simp: resolvable_def)

lemma parse_lines_succeeds:
  "readable ls \<Longrightarrow> resolvable tt (report_hits ls) (dom (map_of d)) \<Longrightarrow>
   \<exists>d'. fst (parse_lines tt ls d) = Inr d'"
proof (induction ls arbitrary: d)
  case Nil
  show ?case by simp
next
  case (Cons l ls)
  from Cons.prems(1) obtain h where l: "line_fields l = Inr h"
    by (cases "line_fields l") (auto simp: readable_def)
  with Cons.prems(2)
  have "hit_id h \<in> dom (map_of d) \<or> \<not> isl (fst (get_taxonomy (hit_id h) tt))"
    and rest: "resolvable tt (report_hits ls) (dom (map_of d))"
    by (auto simp: resolvable_def)
  from add_hits_succeeds [OF this(1)] obtain d1 where d1: "fst (add_hits tt h d) = Inr d1"
    by blast
  have "dom (map_of d) \<subseteq> dom (map_of d1)"
    using add_hits_totals(1) [OF d1] dom_totals [of "map_of d" tt "[h]"] by simp
  with rest have "resolvable tt (report_hits ls) (dom (map_of d1))"
    by (rule resolvable_mono)
  moreover from Cons.prems(1) have "readable ls"
    by (simp add: readable_def)
  ultimately obtain d' where "fst (parse_lines tt ls d1) = Inr d'"
    using Cons.IH by blast
  with l d1 show ?case
    by (simp add: parse_line_def fst_then_do)
qed

lemma mset_concat_map:
  "mset xs' = mset xs \<Longrightarrow> mset (concat (map g xs')) = mset (concat (map g xs))"
proof -
  assume eq: "mset xs' = mset xs"
  have "mset (concat (map g ys)) = sum_mset (image_mset (\<lambda>y. mset (g y)) (mset ys))" for ys
    by (induction ys) simp_all
  with eq show ?thesis by simp
qed

lemma parse_reports_totals:
  assumes "fst (parse_reports tt fs []) = Inr d"
  shows "map_of d = totals tt (report_hits (all_lines fs)) Map.empty"
  using parse_lines_totals [of tt "all_lines fs" "[]" d] assms
  by (simp add: fst_parse_reports)

text \<open>
  Claim C1. When the main loop succeeds on a list of report files, it succeeds on every
  reordering of the list, and both runs end with the same record for every tax ID, in
  particular with the same two counters. Each counter is the sum of the respective
  counts over all lines of all files with that tax ID; two files with one line each for
  tax ID 99, with taxon counts 5 and 7, give 12.
\<close>

theorem count_summation_order_independent:
  assumes "mset fs' = mset fs" and "fst (parse_reports tt fs []) = Inr d"
  shows "\<exists>d'. fst (parse_reports tt fs' []) = Inr d' \<and> map_of d' = map_of d
           \<and> (\<forall>i. map_option hits_at_clade (map_of d' i) = map_option hits_at_clade (map_of d i)
                 \<and> map_option hits_at_taxon (map_of d' i) = map_option hits_at_taxon (map_of d i))
           \<and> (\<forall>i r. map_of d i = Some r \<longrightarrow>
                 hits_at_clade r = clade_sum i (report_hits (all_lines fs))
                 \<and> hits_at_taxon r = taxon_sum i (report_hits (all_lines fs)))"
proof -
  let ?ls = "all_lines fs" and ?ls' = "all_lines fs'"
  from assms(2) have run: "fst (parse_lines tt ?ls []) = Inr d"
    by (simp add: fst_parse_reports)
  note c = parse_lines_totals [OF run]
  have lines: "mset ?ls' = mset ?ls"
    unfolding all_lines_def by (rule mset_concat_map [OF assms(1)])
  then have hits: "mset (report_hits ?ls') = mset (report_hits ?ls)"
    unfolding report_hits_def by (rule mset_concat_map)
  from lines have "set ?ls' = set ?ls" by (rule mset_eq_setD)
  moreover from hits have "set (report_hits ?ls') = set (report_hits ?ls)" by (rule mset_eq_setD)
  ultimately have "readable ?ls'" and "resolvable tt (report_hits ?ls') (dom (map_of []))"
    using c by (simp_all add: readable_def resolvable_def)
  from parse_lines_succeeds [OF this] obtain d' where run': "fst (parse_lines tt ?ls' []) = Inr d'"
    by blast
  have same: "map_of d' = map_of d"
    using parse_lines_totals [OF run'] c totals_mset [OF hits] by simp
  have sums: "hits_at_clade r = clade_sum i (report_hits ?ls)
      \<and> hits_at_taxon r = taxon_sum i (report_hits ?ls)" if "map_of d i = Some r" for i r
    using that c
    by (auto simp: totals_def TaxonInfo_of_def split: if_splits sum.splits)
  from run' same sums show ?thesis
    by (simp add: fst_parse_reports)
qed

lemma example_tree_99:
  "get_taxonomy 99 example_tree =
     (Inr ((\<lambda>_. None)(''t_genus'' := Some ''G'', ''t_superkingdom'' := Some ''Bacteria'')),
      [Call_get_lineage 99, Call_get_rank 99, Call_get_name 99, Call_get_rank 2,
       Call_get_name 2, Call_get_rank 131567, Call_get_rank 1])"
  by (simp add: get_taxonomy_def example_tree_def taxonomy_ranks_def empty_taxonomy_dict_def
      then_do_Inr)

lemma line_fields_99:
  "line_fields ''1.00 5 5 G 99 G'' = Inr (5, 5, 99)"
  "line_fields ''1.00 7 7 G 99 G'' = Inr (7, 7, 99)"
  by (simp_all add: line_fields_def split_def is_space_def int_item_def item_def py_int_def
      int_unsigned_def is_digit_def digit_val_def)

lemma scenario_B_run:
  "fst (parse_reports example_tree [report_B1, report_B2] []) =
     Inr [(99, record_99\<lparr>hits_at_clade := 12, hits_at_taxon := 12\<rparr>)]"
  by (simp add: report_B1_def report_B2_def parse_report_def parse_line_def line_fields_99
      add_hits_def example_tree_99 fst_then_do then_do_Inr record_99_def TaxonInfo_of_def)

theorem count_summation_order_independent_witness:
  "mset [report_B2, report_B1] = mset [report_B1, report_B2]
   \<and> fst (parse_reports example_tree [report_B1, report_B2] []) =
       Inr [(99, record_99\<lparr>hits_at_clade := 12, hits_at_taxon := 12\<rparr>)]
   \<and> (\<exists>d'. fst (parse_reports example_tree [report_B2, report_B1] []) = Inr d'
          \<and> map_option hits_at_taxon (map_of d' 99) = Some 12)
   \<and> taxon_sum 99 (report_hits (all_lines [report_B1, report_B2])) = 12"
proof -
  have p: "mset [report_B2, report_B1] = mset [report_B1, report_B2]"
    by simp
  from count_summation_order_independent [OF p scenario_B_run]
  obtain d' where a: "fst (parse_reports example_tree [report_B2, report_B1] []) = Inr d'"
    and b: "map_of d' = map_of [(99, record_99\<lparr>hits_at_clade := 12, hits_at_taxon := 12\<rparr>)]"
    and c: "\<forall>i r. map_of [(99, record_99\<lparr>hits_at_clade := 12, hits_at_taxon := 12\<rparr>)] i = Some r \<longrightarrow>
                 hits_at_clade r = clade_sum i (report_hits (all_lines [report_B1, report_B2]))
                 \<and> hits_at_taxon r = taxon_sum i (report_hits (all_lines [report_B1, report_B2]))"
    by blast
  from c [rule_format, of 99 "record_99\<lparr>hits_at_clade := 12, hits_at_taxon := 12\<rparr>"]
  have "taxon_sum 99 (report_hits (all_lines [report_B1, report_B2])) = 12"
    by simp
  moreover from b have "map_option hits_at_taxon (map_of d' 99) = Some 12"
    by simp
  ultimately show ?thesis
    using p scenario_B_run a by blast
qed

subsection \<open>One lineage per tax ID\<close>

lemma lineage_loop_count: "count_list (snd (lineage_loop tt js d)) (Call_get_lineage x) = 0"
  by (simp add: lineage_loop_no_lineage_call)

lemma get_taxonomy_count:
  "count_list (snd (get_taxonomy y tt)) (Call_get_lineage x) = (if x = y \<and> y \<noteq> 0 then 1 else 0)"
  by (auto simp: get_taxonomy_def snd_then_do lineage_loop_count split: option.splits sum.splits)

lemma add_hits_count:
  "count_list (snd (add_hits tt h d)) (Call_get_lineage x) + known d x \<le> 1"
  by (cases h)
     (auto simp: add_hits_def known_def snd_then_do get_taxonomy_count
       split: option.splits sum.splits)

lemma add_hits_count_success:
  assumes "fst (add_hits tt h d) = Inr d'"
  shows "count_list (snd (add_hits tt h d)) (Call_get_lineage x) + known d x = known d' x"
proof -
  obtain c t y where h: "h = (c, t, y)" by (cases h)
  show ?thesis
  proof (cases "map_of d y")
    case None
    with assms h show ?thesis
      by (auto simp: add_hits_absent known_def snd_then_do fst_then_do get_taxonomy_count
          dom_update update_conv' split: sum.splits)
  next
    case (Some r)
    with assms h have "d' = AList.update y (r\<lparr>hits_at_clade := hits_at_clade r + c,
                              hits_at_taxon := hits_at_taxon r + t\<rparr>) d"
      and "snd (add_hits tt h d) = []"
      by (simp_all add: add_hits_present)
    with Some show ?thesis
      by (cases "x = y") (auto simp: known_def update_conv')
  qed
qed

lemma parse_line_count:
  "count_list (snd (parse_line tt l d)) (Call_get_lineage x) + known d x \<le> 1"
proof (cases "line_fields l")
  case (Inl e)
  then show ?thesis by (simp add: parse_line_def known_def)
next
  case (Inr h)
  with add_hits_count [of tt h d x] show ?thesis by (simp add: parse_line_def)
qed

lemma parse_line_count_success:
  "fst (parse_line tt l d) = Inr d' \<Longrightarrow>
   count_list (snd (parse_line tt l d)) (Call_get_lineage x) + known d x = known d' x"
  by (auto simp: parse_line_def split: sum.splits dest: add_hits_count_success)

lemma parse_lines_count_success:
  "fst (parse_lines tt ls d) = Inr d' \<Longrightarrow>
   count_list (snd (parse_lines tt ls d)) (Call_get_lineage x) + known d x = known d' x"
proof (induction ls arbitrary: d)
  case Nil
  then show ?case by simp
next
  case (Cons l ls)
  from Cons.prems obtain d1 where d1: "fst (parse_line tt l d) = Inr d1"
    and rest: "fst (parse_lines tt ls d1) = Inr d'"
    by (auto simp: fst_then_do split: sum.splits)
  from parse_line_count_success [OF d1, of x] Cons.IH [OF rest] d1 show ?case
    by (simp add: snd_then_do)
qed

lemma parse_lines_count:
  "count_list (snd (parse_lines tt ls d)) (Call_get_lineage x) + known d x \<le> 1"
proof (induction ls arbitrary: d)
  case Nil
  show ?case by (simp add: known_def)
next
  case (Cons l ls)
  show ?case
  proof (cases "fst (parse_line tt l d)")
    case (Inl e)
    with parse_line_count [of tt l d x] show ?thesis
      by (simp add: snd_then_do)
  next
    case (Inr d1)
    with parse_line_count_success [OF Inr, of x] Cons.IH [of d1] show ?thesis
      by (simp add: snd_then_do)
  qed
qed

lemma parse_report_count:
  "count_list (snd (parse_report f d tt)) (Call_get_lineage x)
     = count_list (snd (parse_lines tt (file_lines f) d)) (Call_get_lineage x)"
  "fst (parse_report f d tt) = fst (parse_lines tt (file_lines f) d)"
  by (simp_all add: parse_report_def then_do_Inr)

lemma parse_reports_count_success:
  "fst (parse_reports tt fs d) = Inr d' \<Longrightarrow>
   count_list (snd (parse_reports tt fs d)) (Call_get_lineage x) + known d x = known d' x"
proof (induction fs arbitrary: d)
  case Nil
  then show ?case by simp
next
  case (Cons f fs)
  from Cons.prems obtain d1 where d1: "fst (parse_report f d tt) = Inr d1"
    and rest: "fst (parse_reports tt fs d1) = Inr d'"
    by (auto simp: fst_then_do split: sum.splits)
  from d1 have "fst (parse_lines tt (file_lines f) d) = Inr d1"
    by (simp add: parse_report_count)
  from parse_lines_count_success [OF this, of x] Cons.IH [OF rest] d1 show ?case
    by (simp add: snd_then_do parse_report_count)
qed

lemma parse_reports_count:
  "count_list (snd (parse_reports tt fs d)) (Call_get_lineage x) + known d x \<le> 1"
proof (induction fs arbitrary: d)
  case Nil
  show ?case by (simp add: known_def)
next
  case (Cons f fs)
  show ?case
  proof (cases "fst (parse_report f d tt)")
    case (Inl e)
    with parse_lines_count [of tt "file_lines f" d x] show ?thesis
      by (simp add: snd_then_do parse_report_count)
  next
    case (Inr d1)
    then have "fst (parse_lines tt (file_lines f) d) = Inr d1"
      by (simp add: parse_report_count)
    from parse_lines_count_success [OF this, of x] Cons.IH [of d1] Inr show ?thesis
      by (simp add: snd_then_do parse_report_count)
  qed
qed

lemma ranks_TaxonInfo_of: "ranks (TaxonInfo_of c t x td) = map td (map snd taxonomy_ranks)"
  by (simp add: ranks_def TaxonInfo_of_def taxonomy_ranks_def)

lemma ranks_counters [simp]:
  "ranks (r\<lparr>hits_at_clade := a\<rparr>) = ranks r" "ranks (r\<lparr>hits_at_taxon := b\<rparr>) = ranks r"
  by (simp_all add: ranks_def)

text \<open>
  Claim C4. A line whose tax ID is not yet in the dict makes exactly the calls of one
  lineage resolution and stores its result in the new record. A line whose tax ID is in
  the dict makes no call at all and replaces the record by one with the same rank fields
  and the counts added to the two counters. Over a whole run, over all files, the lineage
  of a tax ID is asked from the taxonomy tree at most once; when the run succeeds, it is
  asked exactly once for every tax ID in the dict other than 0 (which is resolved without
  the tree), and the rank fields of the final record are those of that resolution.
\<close>

theorem lineage_resolved_once:
  "(map_of d x = None \<longrightarrow> fst (add_hits tt (c, t, x) d) = Inr d' \<longrightarrow>
      (\<exists>td. fst (get_taxonomy x tt) = Inr td
            \<and> snd (add_hits tt (c, t, x) d) = snd (get_taxonomy x tt)
            \<and> map_of d' = (map_of d)(x \<mapsto> TaxonInfo_of c t x td)))
   \<and> (map_of d x = Some r \<longrightarrow>
      (\<exists>r'. add_hits tt (c, t, x) d = (Inr (AList.update x r' d), [])
            \<and> ranks r' = ranks r \<and> t_id r' = t_id r
            \<and> hits_at_clade r' = hits_at_clade r + c
            \<and> hits_at_taxon r' = hits_at_taxon r + t))
   \<and> count_list (snd (parse_reports tt fs [])) (Call_get_lineage x) \<le> 1
   \<and> (fst (parse_reports tt fs []) = Inr dd \<longrightarrow> map_of dd x = Some rr \<longrightarrow>
      (\<exists>td. fst (get_taxonomy x tt) = Inr td \<and> ranks rr = map td (map snd taxonomy_ranks))
      \<and> count_list (snd (parse_reports tt fs [])) (Call_get_lineage x) = (if x = 0 then 0 else 1))"
proof (intro conjI impI)
  assume "map_of d x = None" and "fst (add_hits tt (c, t, x) d) = Inr d'"
  then show "\<exists>td. fst (get_taxonomy x tt) = Inr td
            \<and> snd (add_hits tt (c, t, x) d) = snd (get_taxonomy x tt)
            \<and> map_of d' = (map_of d)(x \<mapsto> TaxonInfo_of c t x td)"
    by (auto simp: add_hits_absent fst_then_do snd_then_do update_conv' split: sum.splits)
next
  assume "map_of d x = Some r"
  then show "\<exists>r'. add_hits tt (c, t, x) d = (Inr (AList.update x r' d), [])
            \<and> ranks r' = ranks r \<and> t_id r' = t_id r
            \<and> hits_at_clade r' = hits_at_clade r + c
            \<and> hits_at_taxon r' = hits_at_taxon r + t"
    by (intro exI [of _ "r\<lparr>hits_at_clade := hits_at_clade r + c,
                              hits_at_taxon := hits_at_taxon r + t\<rparr>"])
       (simp add: add_hits_present)
next
  show "count_list (snd (parse_reports tt fs [])) (Call_get_lineage x) \<le> 1"
    using parse_reports_count [of tt fs "[]" x] by simp
next
  assume run: "fst (parse_reports tt fs []) = Inr dd" and rr: "map_of dd x = Some rr"
  from parse_reports_totals [OF run] rr
  show "\<exists>td. fst (get_taxonomy x tt) = Inr td \<and> ranks rr = map td (map snd taxonomy_ranks)"
    by (auto simp: totals_def ranks_TaxonInfo_of split: if_splits sum.splits)
  from parse_reports_count_success [OF run, of x] rr
  show "count_list (snd (parse_reports tt fs [])) (Call_get_lineage x) = (if x = 0 then 0 else 1)"
    by (auto simp: known_def split: if_splits)
qed

theorem lineage_resolved_once_witness:
  "map_of ([] :: taxon_info_dict) 99 = None
   \<and> fst (add_hits example_tree (5, 5, 99) []) = Inr [(99, record_99)]
   \<and> snd (add_hits example_tree (5, 5, 99) []) = snd (get_taxonomy 99 example_tree)
   \<and> map_of [(99, record_99)] 99 = Some record_99
   \<and> add_hits example_tree (7, 7, 99) [(99, record_99)]
       = (Inr [(99, record_99\<lparr>hits_at_clade := 12, hits_at_taxon := 12\<rparr>)], [])
   \<and> ranks (record_99\<lparr>hits_at_clade := 12, hits_at_taxon := 12\<rparr>) = ranks record_99
   \<and> fst (parse_reports example_tree [report_B1, report_B2] [])
       = Inr [(99, record_99\<lparr>hits_at_clade := 12, hits_at_taxon := 12\<rparr>)]
   \<and> count_list (snd (parse_reports example_tree [report_B1, report_B2] [])) (Call_get_lineage 99) = 1"
proof -
  have a: "fst (add_hits example_tree (5, 5, 99) []) = Inr [(99, record_99)]"
    by (simp add: add_hits_def example_tree_99 then_do_Inr record_99_def)
  have b: "map_of [(99, record_99)] 99 = Some record_99"
    by simp
  have c: "map_of [(99, record_99\<lparr>hits_at_clade := 12, hits_at_taxon := 12\<rparr>)] 99
      = Some (record_99\<lparr>hits_at_clade := 12, hits_at_taxon := 12\<rparr>)"
    by simp
  note first = lineage_resolved_once [where d = "[]" and x = 99 and tt = example_tree
      and c = 5 and t = 5 and d' = "[(99, record_99)]" and fs = "[report_B1, report_B2]"
      and dd = "[(99, record_99\<lparr>hits_at_clade := 12, hits_at_taxon := 12\<rparr>)]"
      and rr = "record_99\<lparr>hits_at_clade := 12, hits_at_taxon := 12\<rparr>"]
  note later = lineage_resolved_once [where d = "[(99, record_99)]" and x = 99
      and tt = example_tree and c = 7 and t = 7 and r = record_99 and fs = "[]"]
  from first a have "snd (add_hits example_tree (5, 5, 99) []) = snd (get_taxonomy 99 example_tree)"
    by auto
  moreover from first scenario_B_run c
  have "count_list (snd (parse_reports example_tree [report_B1, report_B2] [])) (Call_get_lineage 99) = 1"
    by simp
  moreover from later b
  have "add_hits example_tree (7, 7, 99) [(99, record_99)]
       = (Inr [(99, record_99\<lparr>hits_at_clade := 12, hits_at_taxon := 12\<rparr>)], [])"
    by (simp add: add_hits_def record_99_def TaxonInfo_of_def)
  ultimately show ?thesis
    using a b scenario_B_run by simp
qed

subsection \<open>Reading an output row back\<close>

lemma csv_read_in_field_end: "tab \<notin> set s \<Longrightarrow> csv_read_aux IN_FIELD f s = [f @ s]"
  by (induction s arbitrary: f) auto

lemma csv_read_in_field_tab:
  "tab \<notin> set s \<Longrightarrow>
   csv_read_aux IN_FIELD f (s @ tab # rest) = (f @ s) # csv_read_aux START_FIELD [] rest"
  by (induction s arbitrary: f) auto

lemma csv_read_plain_end:
  "\<not> needs_quotes s \<Longrightarrow> csv_read_aux START_FIELD [] s = [s]"
  by (cases s) (auto simp: needs_quotes_def csv_read_in_field_end)

lemma csv_read_plain_tab:
  "\<not> needs_quotes s \<Longrightarrow>
   csv_read_aux START_FIELD [] (s @ tab # rest) = s # csv_read_aux START_FIELD [] rest"
  by (cases s) (auto simp: needs_quotes_def csv_read_in_field_tab)

lemma csv_read_quoted:
  "csv_read_aux IN_QUOTED_FIELD f
     (concat (map (\<lambda>c. if c = quotechar then [quotechar, quotechar] else [c]) s)
      @ quotechar # rest)
   = csv_read_aux QUOTE_IN_QUOTED_FIELD (f @ s) rest"
  by (induction s arbitrary: f) auto

lemma csv_read_field_end: "csv_read_aux START_FIELD [] (csv_field s) = [s]"
  using csv_read_quoted [of "[]" s "[]"]
  by (auto simp: csv_field_def csv_read_plain_end)

lemma csv_read_field_tab:
  "csv_read_aux START_FIELD [] (csv_field s @ tab # rest) = s # csv_read_aux START_FIELD [] rest"
  using csv_read_quoted [of "[]" s "tab # rest"]
  by (auto simp: csv_field_def csv_read_plain_tab)

lemma csv_read_row: "cells \<noteq> [] \<Longrightarrow> csv_read (csv_row cells) = cells"
proof (induction cells rule: join_tab.induct)
  case 1
  then show ?case by simp
next
  case (2 s)
  show ?case by (simp add: csv_read_def csv_row_def csv_read_field_end)
next
  case (3 s t ss)
  then show ?case
    by (simp add: csv_read_def csv_row_def csv_read_field_tab)
qed

lemma cols_ranks:
  "cols r = str_int (hits_at_taxon r) # map (\<lambda>v. case v of None \<Rightarrow> [] | Some s \<Rightarrow> s) (ranks r)"
  by (simp add: cols_def ranks_def)

lemma csv_read_cols: "csv_read (csv_row (cols r)) = cols r"
  by (rule csv_read_row) (simp add: cols_def)

lemma length_cols: "length (cols r) = 9"
  by (simp add: cols_def)

lemma scenario_A_run:
  "fst (kraken2krona example_tree (scenario_A flag)) =
     Inr [''8'' @ [tab] @ ''Bacteria'' @ [tab, tab, tab, tab, tab, tab, tab] @ ''X'']"
  using example_tree_1234
  by (cases "get_taxonomy 1234 example_tree")
     (simp add: kraken2krona_def taxon_info_frame_def fst_then_do scenario_A_dict add_hits_def
      TaxonInfo_of_def data_frame_of_def drop_unclassified_def name_empty_rows_def
      taxonomically_empty_def to_csv_def cols_def csv_row_def csv_field_def needs_quotes_def
      str_int_def digit_char_def)

subsection \<open>The naming pass\<close>

lemma t_id_named [simp]: "t_id (named tt ids r) = t_id r"
  by (simp add: named_def)

lemma named_Nil [simp]: "map (named tt []) df = df"
  by (induction df) (simp_all add: named_def)

lemma named_Cons:
  "map (named tt rest) (set_superkingdom x (display_name tt x) df) = map (named tt (x # rest)) df"
  by (induction df) (auto simp: named_def set_superkingdom_def)

lemma name_rows_result:
  "fst (name_rows tt ids df) =
     (if nameable tt ids then Inr (map (named tt ids) df) else Inl TaxonomyTreeException)"
proof (induction ids arbitrary: df)
  case Nil
  show ?case by (simp add: nameable_def)
next
  case (Cons x rest)
  show ?case
  proof (cases "x = 0")
    case True
    have "set_superkingdom 0 ''Unclassified'' df = set_superkingdom 0 (display_name tt 0) df"
      by (simp add: display_name_def)
    with True Cons.IH [of "set_superkingdom 0 ''Unclassified'' df"] show ?thesis
      by (simp add: nameable_def named_Cons)
  next
    case False
    show ?thesis
    proof (cases "get_name tt x")
      case None
      with False show ?thesis by (simp add: nameable_def)
    next
      case (Some n)
      with False have "set_superkingdom x n df = set_superkingdom x (display_name tt x) df"
        by (simp add: display_name_def)
      with False Some Cons.IH [of "set_superkingdom x n df"] show ?thesis
        by (simp add: nameable_def named_Cons fst_then_do)
    qed
  qed
qed

lemma fst_drop_unclassified:
  "fst (drop_unclassified flag df) = Inr (frame_after_drop flag df)"
proof -
  have "filter (\<lambda>r. t_id r \<noteq> 0) df = df" if "0 \<notin> t_id ` set df"
    using that by (intro filter_True) auto
  then show ?thesis
    by (auto simp: drop_unclassified_def frame_after_drop_def)
qed

lemma empty_ids_filter:
  "map t_id (filter taxonomically_empty (filter (\<lambda>r. t_id r \<noteq> 0) df))
     = filter (\<lambda>i. i \<noteq> 0) (map t_id (filter taxonomically_empty df))"
  by (induction df) auto

lemma nameable_filter: "nameable tt (filter (\<lambda>i. i \<noteq> 0) ids) = nameable tt ids"
  by (induction ids) (auto simp: nameable_def)

lemma named_filter:
  "filter (\<lambda>r. t_id r \<noteq> 0) (map (named tt ids) df)
     = map (named tt (filter (\<lambda>i. i \<noteq> 0) ids)) (filter (\<lambda>r. t_id r \<noteq> 0) df)"
  by (induction df) (auto simp: named_def)

lemma frame_after_drop_named:
  "frame_after_drop flag (map (named tt (map t_id (filter taxonomically_empty df))) df)
     = map (named tt (map t_id (filter taxonomically_empty (frame_after_drop flag df))))
         (frame_after_drop flag df)"
proof (cases flag)
  case True
  then show ?thesis by (simp add: frame_after_drop_def)
next
  case False
  then show ?thesis
    by (simp only: frame_after_drop_def if_False named_filter empty_ids_filter)
qed

lemma nameable_after_drop:
  "nameable tt (map t_id (filter taxonomically_empty (frame_after_drop flag df)))
     = nameable tt (map t_id (filter taxonomically_empty df))"
proof (cases flag)
  case True
  then show ?thesis by (simp add: frame_after_drop_def)
next
  case False
  then show ?thesis
    by (simp only: frame_after_drop_def if_False empty_ids_filter nameable_filter)
qed

lemma same_rows:
  "fst (kraken2krona tt a) = fst (kraken2krona_naming_first tt a)"
proof (cases "fst (parse_reports tt (kraken_report a) [])")
  case (Inl e)
  then show ?thesis
    by (simp add: kraken2krona_def taxon_info_frame_def kraken2krona_naming_first_def fst_then_do)
next
  case (Inr d)
  show ?thesis
  proof (cases "d = []")
    case True
    with Inr show ?thesis
      by (simp add: kraken2krona_def taxon_info_frame_def kraken2krona_naming_first_def
          fst_then_do data_frame_of_def)
  next
    case False
    obtain recs where recs: "map snd d = recs" by simp
    from False recs have "recs \<noteq> []" by auto
    with Inr recs show ?thesis
      by (simp add: kraken2krona_def taxon_info_frame_def kraken2krona_naming_first_def
          fst_then_do data_frame_of_def fst_drop_unclassified name_empty_rows_def
          name_rows_result frame_after_drop_named nameable_after_drop)
  qed
qed

lemma trace_order:
  assumes "fst (parse_reports tt (kraken_report a) []) = Inr d" and "d \<noteq> []"
  shows "snd (kraken2krona tt a) =
           snd (parse_reports tt (kraken_report a) [])
           @ snd (drop_unclassified (include_unclassified a) (map snd d))
           @ snd (name_empty_rows tt (frame_after_drop (include_unclassified a) (map snd d)))
           @ (if isl (fst (name_empty_rows tt (frame_after_drop (include_unclassified a) (map snd d))))
              then [] else [Log_info (saving_message a)])"
  using assms
  by (auto simp: kraken2krona_def taxon_info_frame_def snd_then_do fst_then_do data_frame_of_def
      fst_drop_unclassified split: sum.splits)

lemma scenario_C_dict:
  "fst (parse_reports example_tree (kraken_report (scenario_C flag)) []) =
     Inr [(0, TaxonInfo_of 3 3 0 (\<lambda>_. None)), (1, TaxonInfo_of 20 1 1 (\<lambda>_. None))]"
proof -
  have l: "line_fields ''10.00 3 3 U 0 unclassified'' = Inr (3, 3, 0)"
    "line_fields ''90.00 20 1 R 1 root'' = Inr (20, 1, 1)"
    by (simp_all add: line_fields_def split_def is_space_def int_item_def item_def py_int_def
        int_unsigned_def is_digit_def digit_val_def)
  have g: "fst (get_taxonomy 1 example_tree) = Inr (\<lambda>_. None)"
    by (simp add: get_taxonomy_def example_tree_def taxonomy_ranks_def empty_taxonomy_dict_def
        then_do_Inr)
  have g0: "fst (get_taxonomy 0 example_tree) = Inr (\<lambda>_. None)"
    by (simp add: get_taxonomy_def empty_taxonomy_dict_def)
  show ?thesis
    by (simp add: scenario_C_def parse_report_def parse_line_def l add_hits_def g g0 fst_then_do)
qed

text \<open>
  Claim C8, as amended. The pass that names the rows without taxonomic level runs once,
  after all report files have been merged and after the row of the unclassified reads
  has been dropped, and before the rows are written: the events of a run are those of
  the main loop, then those of the drop, then those of the naming pass, then the
  message about the output file. The rows written, or the exception raised, are the
  same as if the naming pass had run before the drop.
\<close>

theorem naming_pass_order:
  "fst (kraken2krona tt a) = fst (kraken2krona_naming_first tt a)
   \<and> (fst (parse_reports tt (kraken_report a) []) = Inr d \<longrightarrow> d \<noteq> [] \<longrightarrow>
        snd (kraken2krona tt a) =
          snd (parse_reports tt (kraken_report a) [])
          @ snd (drop_unclassified (include_unclassified a) (map snd d))
          @ snd (name_empty_rows tt (frame_after_drop (include_unclassified a) (map snd d)))
          @ (if isl (fst (name_empty_rows tt (frame_after_drop (include_unclassified a) (map snd d))))
             then [] else [Log_info (saving_message a)]))"
  using same_rows [of tt a] trace_order [of tt a d] by blast

theorem naming_pass_order_witness:
  "fst (parse_reports example_tree (kraken_report (scenario_C False)) []) =
     Inr [(0, TaxonInfo_of 3 3 0 (\<lambda>_. None)), (1, TaxonInfo_of 20 1 1 (\<lambda>_. None))]
   \<and> fst (kraken2krona example_tree (scenario_C False))
       = fst (kraken2krona_naming_first example_tree (scenario_C False))
   \<and> snd (kraken2krona example_tree (scenario_C False)) =
       snd (parse_reports example_tree (kraken_report (scenario_C False)) [])
       @ [Log_info ''Removing row for unclassified reads from output file.'',
          Call_get_name 1, Log_info ''Saving output to out.tsv.'']"
proof -
  note w = naming_pass_order [of example_tree "scenario_C False"
      "[(0, TaxonInfo_of 3 3 0 (\<lambda>_. None)), (1, TaxonInfo_of 20 1 1 (\<lambda>_. None))]"]
  have "snd (kraken2krona example_tree (scenario_C False)) =
       snd (parse_reports example_tree (kraken_report (scenario_C False)) [])
       @ [Log_info ''Removing row for unclassified reads from output file.'',
          Call_get_name 1, Log_info ''Saving output to out.tsv.'']"
    using w scenario_C_dict [of False]
    by (simp add: drop_unclassified_def frame_after_drop_def name_empty_rows_def
        taxonomically_empty_def TaxonInfo_of_def example_tree_def then_do_Inr scenario_C_def
        saving_message_def)
  with w scenario_C_dict [of False] show ?thesis by simp
qed

text \<open>
  With the unclassified reads and the root in the input and the flag unset, the message
  about the dropped row comes before the call that fetches the name of the root; with
  the naming pass first, it would come after.
\<close>

theorem naming_pass_order_counterexample:
  "snd (kraken2krona example_tree (scenario_C False)) =
     [Log_info (''Reading report file  '' @ [quotechar] @ ''c.report'' @ [quotechar] @ ''.''),
      Call_get_lineage 1, Call_get_rank 1,
      Log_info ''Removing row for unclassified reads from output file.'',
      Call_get_name 1,
      Log_info ''Saving output to out.tsv.'']
   \<and> snd (kraken2krona_naming_first example_tree (scenario_C False)) =
     [Log_info (''Reading report file  '' @ [quotechar] @ ''c.report'' @ [quotechar] @ ''.''),
      Call_get_lineage 1, Call_get_rank 1,
      Call_get_name 1,
      Log_info ''Removing row for unclassified reads from output file.'',
      Log_info ''Saving output to out.tsv.'']"
  by code_simp

subsection \<open>The records of a run\<close>

lemma parse_lines_distinct:
  "fst (parse_lines tt ls d) = Inr d' \<Longrightarrow> distinct (map fst d) \<Longrightarrow> distinct (map fst d')"
proof (induction ls arbitrary: d)
  case Nil
  then show ?case by simp
next
  case (Cons l ls)
  from Cons.prems(1) obtain h d1 where "line_fields l = Inr h"
    and d1: "fst (add_hits tt h d) = Inr d1" and rest: "fst (parse_lines tt ls d1) = Inr d'"
    by (auto simp: fst_then_do parse_line_def split: sum.splits)
  from d1 Cons.prems(2) have "distinct (map fst d1)"
    by (cases h)
       (auto simp: add_hits_def fst_then_do distinct_update split: option.splits sum.splits)
  with rest show ?case by (rule Cons.IH)
qed

lemma lineage_loop_names:
  "fst (lineage_loop tt js d0) = Inr d \<Longrightarrow> d k = Some n \<Longrightarrow>
   d0 k = Some n \<or> (\<exists>j. get_name tt j = Some n)"
proof (induction js arbitrary: d0)
  case Nil
  then show ?case by simp
next
  case (Cons i js)
  show ?case
  proof (cases "get_rank tt i")
    case None
    with Cons.prems show ?thesis by simp
  next
    case (Some rank)
    show ?thesis
    proof (cases "map_of taxonomy_ranks rank")
      case None
      with Some Cons.prems Cons.IH [of d0] show ?thesis
        by (simp add: then_do_Inr)
    next
      case attr: (Some attr)
      show ?thesis
      proof (cases "get_name tt i")
        case None
        with Some attr Cons.prems show ?thesis by simp
      next
        case name: (Some nm)
        with Some attr Cons.prems(1)
        have "fst (lineage_loop tt js (d0(attr := Some nm))) = Inr d"
          by (simp add: then_do_Inr)
        from Cons.IH [OF this Cons.prems(2)]
        have "(d0(attr := Some nm)) k = Some n \<or> (\<exists>j. get_name tt j = Some n)" .
        with name show ?thesis
          by (auto split: if_splits)
      qed
    qed
  qed
qed

lemma get_taxonomy_names:
  "fst (get_taxonomy i tt) = Inr td \<Longrightarrow> td k = Some n \<Longrightarrow> \<exists>j. get_name tt j = Some n"
  using lineage_loop_names [of tt _ empty_taxonomy_dict td k n]
  by (auto simp: get_taxonomy_def then_do_Inr empty_taxonomy_dict_def
      split: if_splits option.splits)

lemma records_of_run:
  assumes "fst (parse_reports tt fs []) = Inr d"
  shows "distinct (map t_id (map snd d))"
    and "r \<in> set (map snd d) \<Longrightarrow>
         \<exists>td. fst (get_taxonomy (t_id r) tt) = Inr td
              \<and> r = TaxonInfo_of (clade_sum (t_id r) (report_hits (all_lines fs)))
                     (taxon_sum (t_id r) (report_hits (all_lines fs))) (t_id r) td"
    and "0 \<in> hit_id ` set (report_hits (all_lines fs)) \<Longrightarrow> 0 \<in> t_id ` set (map snd d)"
proof -
  let ?hs = "report_hits (all_lines fs)"
  from assms have run: "fst (parse_lines tt (all_lines fs) []) = Inr d"
    by (simp add: fst_parse_reports)
  from parse_lines_distinct [OF run] have dist: "distinct (map fst d)"
    by simp
  note tot = parse_reports_totals [OF assms]
  have rec: "\<exists>td. fst (get_taxonomy k tt) = Inr td
              \<and> r = TaxonInfo_of (clade_sum k ?hs) (taxon_sum k ?hs) k td"
    if "(k, r) \<in> set d" for k r
  proof -
    from that dist have "map_of d k = Some r" by simp
    with tot show ?thesis
      by (auto simp: totals_def split: if_splits sum.splits)
  qed
  then have key: "t_id r = k" if "(k, r) \<in> set d" for k r
    using that by (fastforce simp: TaxonInfo_of_def)
  then have "map t_id (map snd d) = map fst d"
    by auto
  then show "distinct (map t_id (map snd d))"
    using dist by (simp only:)
  show "\<exists>td. fst (get_taxonomy (t_id r) tt) = Inr td
              \<and> r = TaxonInfo_of (clade_sum (t_id r) ?hs) (taxon_sum (t_id r) ?hs) (t_id r) td"
    if "r \<in> set (map snd d)"
  proof -
    from that obtain k where "(k, r) \<in> set d" by auto
    with rec [OF this] key [OF this] show ?thesis by simp
  qed
  show "0 \<in> t_id ` set (map snd d)" if "0 \<in> hit_id ` set ?hs"
  proof -
    from parse_lines_totals [OF run] have "resolvable tt ?hs {}"
      by simp
    with that have "\<not> isl (fst (get_taxonomy 0 tt))"
      by (auto simp: resolvable_def)
    with that tot obtain r where "map_of d 0 = Some r"
      by (cases "fst (get_taxonomy 0 tt)") (auto simp: totals_def)
    then have "(0, r) \<in> set d" by (rule map_of_SomeD)
    with key [OF this] show ?thesis by force
  qed
qed

subsection \<open>The row of the unclassified reads\<close>

lemma final_rows:
  assumes "fst (kraken2krona tt a) = Inr rows"
  obtains d where "fst (parse_reports tt (kraken_report a) []) = Inr d"
    and "nameable tt (map t_id (filter taxonomically_empty
           (frame_after_drop (include_unclassified a) (map snd d))))"
    and "rows = to_csv (map (named tt (map t_id (filter taxonomically_empty
                    (frame_after_drop (include_unclassified a) (map snd d)))))
                  (frame_after_drop (include_unclassified a) (map snd d)))"
proof (cases "fst (parse_reports tt (kraken_report a) [])")
  case (Inl e)
  with assms show ?thesis
    by (simp add: kraken2krona_def taxon_info_frame_def fst_then_do)
next
  case (Inr d)
  obtain recs where recs: "map snd d = recs" by simp
  from assms Inr recs
  have "nameable tt (map t_id (filter taxonomically_empty
           (frame_after_drop (include_unclassified a) recs)))
      \<and> rows = to_csv (map (named tt (map t_id (filter taxonomically_empty
                    (frame_after_drop (include_unclassified a) recs))))
                  (frame_after_drop (include_unclassified a) recs))"
    by (simp add: kraken2krona_def taxon_info_frame_def fst_then_do data_frame_of_def
        fst_drop_unclassified name_empty_rows_def name_rows_result
        split: if_splits)
  with Inr recs that show ?thesis by blast
qed

lemma first_rank_field_row:
  "first_rank_field (csv_row (cols r)) = (case t_superkingdom r of None \<Rightarrow> [] | Some s \<Rightarrow> s)"
  by (simp add: first_rank_field_def csv_read_cols) (simp add: cols_def)

lemma count_field_row: "count_field (csv_row (cols r)) = str_int (hits_at_taxon r)"
  by (simp add: count_field_def csv_read_cols) (simp add: cols_def)

lemma named_row:
  assumes no_name: "\<forall>i. get_name tt i \<noteq> Some ''Unclassified''"
    and run: "fst (parse_reports tt fs []) = Inr d"
    and sub: "set df \<subseteq> set (map snd d)"
    and ok: "nameable tt (map t_id (filter taxonomically_empty df))"
    and r: "r \<in> set df"
  shows "first_rank_field (csv_row (cols (named tt (map t_id (filter taxonomically_empty df)) r)))
           = ''Unclassified'' \<longleftrightarrow> t_id r = 0"
    and "count_field (csv_row (cols (named tt (map t_id (filter taxonomically_empty df)) r)))
           = str_int (taxon_sum (t_id r) (report_hits (all_lines fs)))"
proof -
  let ?ids = "map t_id (filter taxonomically_empty df)"
  from r sub have r': "r \<in> set (map snd d)" by blast
  from records_of_run(2) [OF run r'] obtain td
    where td: "fst (get_taxonomy (t_id r) tt) = Inr td"
      and rec: "r = TaxonInfo_of (clade_sum (t_id r) (report_hits (all_lines fs)))
                     (taxon_sum (t_id r) (report_hits (all_lines fs))) (t_id r) td"
    by blast
  from records_of_run(1) [OF run] have "inj_on t_id (set (map snd d))"
    by (simp only: distinct_map)
  then have inj: "inj_on t_id (set df)"
    using sub by (rule inj_on_subset)
  have ids: "t_id r \<in> set ?ids \<longleftrightarrow> taxonomically_empty r"
  proof
    assume "t_id r \<in> set ?ids"
    then obtain r0 where "r0 \<in> set df" and "taxonomically_empty r0" and "t_id r0 = t_id r"
      by auto
    with inj r show "taxonomically_empty r"
      by (auto dest: inj_onD)
  next
    assume "taxonomically_empty r"
    with r show "t_id r \<in> set ?ids" by auto
  qed
  have hits: "hits_at_taxon r = taxon_sum (t_id r) (report_hits (all_lines fs))"
    by (subst rec) (simp add: TaxonInfo_of_def)
  show "count_field (csv_row (cols (named tt ?ids r)))
           = str_int (taxon_sum (t_id r) (report_hits (all_lines fs)))"
    using hits by (simp add: count_field_row named_def)
  show "first_rank_field (csv_row (cols (named tt ?ids r))) = ''Unclassified'' \<longleftrightarrow> t_id r = 0"
  proof (cases "t_id r = 0")
    case True
    with td have "td = (\<lambda>_. None)"
      by (simp add: get_taxonomy_def empty_taxonomy_dict_def)
    then have "taxonomically_empty r"
      by (subst rec) (simp add: taxonomically_empty_def TaxonInfo_of_def)
    with ids True show ?thesis
      by (simp add: first_rank_field_row named_def display_name_def)
  next
    case False
    show ?thesis
    proof (cases "taxonomically_empty r")
      case True
      with ids ok have "get_name tt (t_id r) \<noteq> None"
        using False by (auto simp: nameable_def list_all_iff)
      then obtain n where "get_name tt (t_id r) = Some n" by blast
      with no_name True ids False show ?thesis
        by (auto simp: first_rank_field_row named_def display_name_def)
    next
      case not_empty: False
      have "t_superkingdom r = td ''t_superkingdom''"
        by (subst rec) (simp add: TaxonInfo_of_def)
      with get_taxonomy_names [OF td, of "''t_superkingdom''"] no_name
      have "t_superkingdom r \<noteq> Some ''Unclassified''"
        by auto
      with not_empty ids False show ?thesis
        by (auto simp: first_rank_field_row named_def split: option.splits)
    qed
  qed
qed

lemma one_row_per_label:
  "distinct (map f xs) \<Longrightarrow> a \<in> f ` set xs \<Longrightarrow> length (filter (\<lambda>x. f x = a) xs) = 1"
proof (induction xs)
  case Nil
  then show ?case by simp
next
  case (Cons x xs)
  show ?case
  proof (cases "f x = a")
    case True
    with Cons.prems have "filter (\<lambda>y. f y = a) xs = []"
      by (auto simp: filter_empty_conv image_iff)
    with True show ?thesis by simp
  next
    case False
    with Cons show ?thesis by auto
  qed
qed

text \<open>
  Claim C3, as amended. Let the taxonomy tree give the name \<open>Unclassified\<close> to no tax ID,
  and let the run succeed. With the flag for the unclassified reads unset, no row written
  has \<open>Unclassified\<close> in its first rank field. With the flag set and a line with tax ID
  0 in the input, exactly one row has \<open>Unclassified\<close> there, and its count is the sum of
  the taxon counts of all lines with tax ID 0.
\<close>

theorem exclusion_correctness:
  assumes "\<forall>i. get_name tt i \<noteq> Some ''Unclassified''"
    and "fst (kraken2krona tt a) = Inr rows"
  shows "(\<not> include_unclassified a \<longrightarrow>
            (\<forall>row\<in>set rows. first_rank_field row \<noteq> ''Unclassified''))
         \<and> (include_unclassified a \<longrightarrow>
            0 \<in> hit_id ` set (report_hits (all_lines (kraken_report a))) \<longrightarrow>
              length (filter (\<lambda>row. first_rank_field row = ''Unclassified'') rows) = 1
              \<and> (\<forall>row\<in>set rows. first_rank_field row = ''Unclassified'' \<longrightarrow>
                    count_field row
                      = str_int (taxon_sum 0 (report_hits (all_lines (kraken_report a))))))"
proof -
  from assms(2) obtain d where run: "fst (parse_reports tt (kraken_report a) []) = Inr d"
    and ok: "nameable tt (map t_id (filter taxonomically_empty
           (frame_after_drop (include_unclassified a) (map snd d))))"
    and rows: "rows = to_csv (map (named tt (map t_id (filter taxonomically_empty
                    (frame_after_drop (include_unclassified a) (map snd d)))))
                  (frame_after_drop (include_unclassified a) (map snd d)))"
    by (rule final_rows)
  define df where "df = frame_after_drop (include_unclassified a) (map snd d)"
  define row_of where "row_of = (\<lambda>r. csv_row (cols (named tt (map t_id (filter taxonomically_empty df)) r)))"
  have sub: "set df \<subseteq> set (map snd d)"
    by (auto simp: df_def frame_after_drop_def)
  have rows_df: "rows = map row_of df"
    by (simp add: rows df_def row_of_def to_csv_def)
  note ok' = ok [folded df_def]
  have first: "first_rank_field (row_of r) = ''Unclassified'' \<longleftrightarrow> t_id r = 0"
    and cnt: "count_field (row_of r) = str_int (taxon_sum (t_id r) (report_hits (all_lines (kraken_report a))))"
    if "r \<in> set df" for r
    unfolding row_of_def
    by (rule named_row [OF assms(1) run sub ok' that])+
  have unset: "first_rank_field row \<noteq> ''Unclassified''"
    if "\<not> include_unclassified a" and "row \<in> set rows" for row
  proof -
    from that(2) obtain r where r: "r \<in> set df" and row: "row = row_of r"
      by (auto simp: rows_df)
    from r that(1) have "t_id r \<noteq> 0"
      by (simp add: df_def frame_after_drop_def)
    with first [OF r] row show ?thesis by simp
  qed
  have one: "length (filter (\<lambda>row. first_rank_field row = ''Unclassified'') rows) = 1"
    if "include_unclassified a"
      and "0 \<in> hit_id ` set (report_hits (all_lines (kraken_report a)))"
  proof -
    from that(1) have df: "df = map snd d"
      by (simp add: df_def frame_after_drop_def)
    have "filter (\<lambda>r. first_rank_field (row_of r) = ''Unclassified'') df
        = filter (\<lambda>r. t_id r = 0) df"
      by (rule filter_cong) (simp_all add: first)
    then have "length (filter (\<lambda>row. first_rank_field row = ''Unclassified'') rows)
        = length (filter (\<lambda>r. t_id r = 0) df)"
      by (simp add: rows_df filter_map comp_def)
    also have "\<dots> = 1"
      unfolding df
      by (rule one_row_per_label [OF records_of_run(1) [OF run] records_of_run(3) [OF run that(2)]])
    finally show ?thesis .
  qed
  have count: "count_field row = str_int (taxon_sum 0 (report_hits (all_lines (kraken_report a))))"
    if "row \<in> set rows" and "first_rank_field row = ''Unclassified''" for row
  proof -
    from that(1) obtain r where r: "r \<in> set df" and row: "row = row_of r"
      by (auto simp: rows_df)
    from first [OF r] that(2) row have "t_id r = 0" by simp
    with cnt [OF r] row show ?thesis by simp
  qed
  from unset one count show ?thesis by blast
qed

lemma example_tree_names: "get_name example_tree i \<noteq> Some ''Unclassified''"
  by (simp add: example_tree_def)

lemma scenario_C_rows:
  "fst (kraken2krona example_tree (scenario_C True)) =
     Inr [''3'' @ [tab] @ ''Unclassified'' @ [tab, tab, tab, tab, tab, tab, tab],
          ''1'' @ [tab] @ ''root'' @ [tab, tab, tab, tab, tab, tab, tab]]"
  "fst (kraken2krona example_tree (scenario_C False)) =
     Inr [''1'' @ [tab] @ ''root'' @ [tab, tab, tab, tab, tab, tab, tab]]"
  by code_simp+

lemma scenario_C_hits:
  "report_hits (all_lines (kraken_report (scenario_C flag))) = [(3, 3, 0), (20, 1, 1)]"
  by (simp add: scenario_C_def all_lines_def line_fields_def split_def is_space_def
      int_item_def item_def py_int_def int_unsigned_def is_digit_def digit_val_def)

theorem exclusion_correctness_witness:
  "(\<forall>i. get_name example_tree i \<noteq> Some ''Unclassified'')
   \<and> fst (kraken2krona example_tree (scenario_C False)) =
       Inr [''1'' @ [tab] @ ''root'' @ [tab, tab, tab, tab, tab, tab, tab]]
   \<and> first_rank_field (''1'' @ [tab] @ ''root'' @ [tab, tab, tab, tab, tab, tab, tab])
       \<noteq> ''Unclassified''
   \<and> fst (kraken2krona example_tree (scenario_C True)) =
       Inr [''3'' @ [tab] @ ''Unclassified'' @ [tab, tab, tab, tab, tab, tab, tab],
            ''1'' @ [tab] @ ''root'' @ [tab, tab, tab, tab, tab, tab, tab]]
   \<and> 0 \<in> hit_id ` set (report_hits (all_lines (kraken_report (scenario_C True))))
   \<and> length (filter (\<lambda>row. first_rank_field row = ''Unclassified'')
         [''3'' @ [tab] @ ''Unclassified'' @ [tab, tab, tab, tab, tab, tab, tab],
          ''1'' @ [tab] @ ''root'' @ [tab, tab, tab, tab, tab, tab, tab]]) = 1
   \<and> first_rank_field (''3'' @ [tab] @ ''Unclassified'' @ [tab, tab, tab, tab, tab, tab, tab])
       = ''Unclassified''
   \<and> count_field (''3'' @ [tab] @ ''Unclassified'' @ [tab, tab, tab, tab, tab, tab, tab]) = ''3''"
proof -
  have names: "\<forall>i. get_name example_tree i \<noteq> Some ''Unclassified''"
    by (simp add: example_tree_names)
  have zero: "0 \<in> hit_id ` set (report_hits (all_lines (kraken_report (scenario_C True))))"
    by (simp add: scenario_C_hits hit_id_def)
  have flags: "include_unclassified (scenario_C True)" "\<not> include_unclassified (scenario_C False)"
    by (simp_all add: scenario_C_def)
  have field: "first_rank_field (''3'' @ [tab] @ ''Unclassified'' @ [tab, tab, tab, tab, tab, tab, tab])
       = ''Unclassified''"
    by (simp add: first_rank_field_def csv_read_def)
  note unset = exclusion_correctness [OF names scenario_C_rows(2)]
  note set = exclusion_correctness [OF names scenario_C_rows(1)]
  from unset flags
  have "first_rank_field (''1'' @ [tab] @ ''root'' @ [tab, tab, tab, tab, tab, tab, tab])
       \<noteq> ''Unclassified''"
    by simp
  moreover from set flags zero
  have "length (filter (\<lambda>row. first_rank_field row = ''Unclassified'')
         [''3'' @ [tab] @ ''Unclassified'' @ [tab, tab, tab, tab, tab, tab, tab],
          ''1'' @ [tab] @ ''root'' @ [tab, tab, tab, tab, tab, tab, tab]]) = 1"
    by blast
  moreover from set flags zero field
  have "count_field (''3'' @ [tab] @ ''Unclassified'' @ [tab, tab, tab, tab, tab, tab, tab])
      = str_int (taxon_sum 0 (report_hits (all_lines (kraken_report (scenario_C True)))))"
    by simp
  then have "count_field (''3'' @ [tab] @ ''Unclassified'' @ [tab, tab, tab, tab, tab, tab, tab]) = ''3''"
    by (simp add: scenario_C_hits hit_id_def str_int_def digit_char_def)
  ultimately show ?thesis
    using names zero field scenario_C_rows by blast
qed

text \<open>
  A tree in which tax ID 7, a superkingdom, has the name \<open>Unclassified\<close>: with the flag
  unset, the row of tax ID 7 has \<open>Unclassified\<close> in its first rank field.
\<close>

theorem exclusion_correctness_counterexample:
  "include_unclassified unclassified_args = False
   \<and> fst (kraken2krona unclassified_tree unclassified_args) =
       Inr [''4'' @ [tab] @ ''Unclassified'' @ [tab, tab, tab, tab, tab, tab, tab]]
   \<and> first_rank_field (''4'' @ [tab] @ ''Unclassified'' @ [tab, tab, tab, tab, tab, tab, tab])
       = ''Unclassified''"
  by code_simp

subsection \<open>Cutting an output row at the tabs\<close>

lemma cut_at_end: "sep \<notin> set s \<Longrightarrow> cut_at sep w s = [w @ s]"
  by (induction s arbitrary: w) auto

lemma cut_at_sep:
  "sep \<notin> set s \<Longrightarrow> cut_at sep w (s @ sep # rest) = (w @ s) # cut_at sep [] rest"
  by (induction s arbitrary: w) auto

lemma tab_fields_row:
  "cells \<noteq> [] \<Longrightarrow> list_all (\<lambda>c. \<not> needs_quotes c) cells \<Longrightarrow>
   tab_fields (csv_row cells) = cells"
proof (induction cells rule: join_tab.induct)
  case 1
  then show ?case by simp
next
  case (2 s)
  then show ?case
    by (simp add: tab_fields_def csv_row_def csv_field_def) (simp add: needs_quotes_def cut_at_end)
next
  case (3 s t ss)
  from 3(3) have s: "\<not> needs_quotes s" and rest: "list_all (\<lambda>c. \<not> needs_quotes c) (t # ss)"
    by simp_all
  from 3(1) rest have "cut_at tab [] (join_tab (map csv_field (t # ss))) = t # ss"
    by (simp add: tab_fields_def csv_row_def)
  moreover from s have "tab \<notin> set s" by (simp add: needs_quotes_def)
  ultimately show ?case
    using s by (simp add: tab_fields_def csv_row_def csv_field_def cut_at_sep)
qed

lemma digit_char_digit: "n < 10 \<Longrightarrow> digit_char n \<in> set ''0123456789''"
  unfolding digit_char_def by (rule nth_mem) simp

lemma str_nat_digits: "set (str_nat n) \<subseteq> set ''0123456789''"
proof (induction n rule: str_nat.induct)
  case (1 n)
  show ?case
  proof (cases "n < 10")
    case True
    with digit_char_digit [of n] show ?thesis
      by (subst str_nat.simps) simp
  next
    case False
    have "n mod 10 < 10" by simp
    from digit_char_digit [OF this] 1 [OF False] False show ?thesis
      by (subst str_nat.simps) simp
  qed
qed

lemma str_int_plain: "\<not> needs_quotes (str_int i)"
proof -
  have "\<not> needs_quotes s" if "set s \<subseteq> set ''0123456789''" for s
    using that by (auto simp: needs_quotes_def)
  from this [OF str_nat_digits] show ?thesis
    by (simp add: str_int_def needs_quotes_def)
qed

lemma final_frame:
  assumes "fst (taxon_info_frame tt a) = Inr df"
  obtains d where "fst (parse_reports tt (kraken_report a) []) = Inr d"
    and "df = map (named tt (map t_id (filter taxonomically_empty
                    (frame_after_drop (include_unclassified a) (map snd d)))))
                  (frame_after_drop (include_unclassified a) (map snd d))"
proof (cases "fst (parse_reports tt (kraken_report a) [])")
  case (Inl e)
  with assms show ?thesis
    by (simp add: taxon_info_frame_def fst_then_do)
next
  case (Inr d)
  obtain recs where recs: "map snd d = recs" by simp
  from assms Inr recs
  have "df = map (named tt (map t_id (filter taxonomically_empty
                    (frame_after_drop (include_unclassified a) recs))))
                  (frame_after_drop (include_unclassified a) recs)"
    by (simp add: taxon_info_frame_def fst_then_do data_frame_of_def
        fst_drop_unclassified name_empty_rows_def name_rows_result
        split: if_splits)
  with Inr recs that show ?thesis by blast
qed

lemma display_name_plain: "plain_names tt \<Longrightarrow> \<not> needs_quotes (display_name tt i)"
  by (auto simp: display_name_def plain_names_def needs_quotes_def split: option.splits)

lemma rank_plain:
  assumes "plain_names tt" and "fst (get_taxonomy i tt) = Inr td"
  shows "\<not> needs_quotes (case td k of None \<Rightarrow> [] | Some s \<Rightarrow> s)"
proof (cases "td k")
  case None
  then show ?thesis by (simp add: needs_quotes_def)
next
  case (Some n)
  from get_taxonomy_names [OF assms(2) Some] assms(1) Some show ?thesis
    by (auto simp: plain_names_def)
qed

lemma cols_plain:
  assumes names: "plain_names tt"
    and run: "fst (parse_reports tt fs []) = Inr d"
    and r: "r \<in> set (map snd d)"
  shows "list_all (\<lambda>c. \<not> needs_quotes c) (cols (named tt ids r))"
proof -
  from records_of_run(2) [OF run r] obtain td
    where td: "fst (get_taxonomy (t_id r) tt) = Inr td"
      and rec: "r = TaxonInfo_of (clade_sum (t_id r) (report_hits (all_lines fs)))
                     (taxon_sum (t_id r) (report_hits (all_lines fs))) (t_id r) td"
    by blast
  note plain = rank_plain [OF names td]
  have fields: "t_superkingdom r = td ''t_superkingdom''" "t_kingdom r = td ''t_kingdom''"
    "t_phylum r = td ''t_phylum''" "t_class r = td ''t_class''" "t_order r = td ''t_order''"
    "t_family r = td ''t_family''" "t_genus r = td ''t_genus''" "t_species r = td ''t_species''"
    by (subst rec, simp add: TaxonInfo_of_def)+
  show ?thesis
    using plain [of "''t_superkingdom''"] plain [of "''t_kingdom''"] plain [of "''t_phylum''"]
      plain [of "''t_class''"] plain [of "''t_order''"] plain [of "''t_family''"]
      plain [of "''t_genus''"] plain [of "''t_species''"]
      display_name_plain [OF names, of "t_id r"] str_int_plain [of "hits_at_taxon r"]
    by (simp add: cols_def named_def fields)
qed

text \<open>
  Claim C7, as amended. Let no scientific name of the taxonomy tree hold a tab, a quote
  character, a line feed or a carriage return. Then every row written, cut at its tabs,
  has exactly nine fields: the decimal taxon count of the record, then its eight rank
  fields in the order of \<open>taxonomy_ranks\<close>, a missing one as the empty string. Neither the
  tax ID nor the clade count of the record has any part in the row.
\<close>

theorem column_contract:
  assumes "plain_names tt" and "fst (kraken2krona tt a) = Inr rows"
  shows "\<exists>df. fst (taxon_info_frame tt a) = Inr df \<and> rows = to_csv df
           \<and> map tab_fields rows =
               map (\<lambda>r. str_int (hits_at_taxon r)
                         # map (\<lambda>v. case v of None \<Rightarrow> [] | Some s \<Rightarrow> s) (ranks r)) df
           \<and> (\<forall>row\<in>set rows. length (tab_fields row) = 9)
           \<and> (\<forall>r i n. csv_row (cols (r\<lparr>t_id := i, hits_at_clade := n\<rparr>)) = csv_row (cols r))"
proof -
  from assms(2) obtain df where df: "fst (taxon_info_frame tt a) = Inr df"
    and rows: "rows = to_csv df"
    by (auto simp: kraken2krona_def fst_then_do split: sum.splits)
  from df obtain d where run: "fst (parse_reports tt (kraken_report a) []) = Inr d"
    and frame: "df = map (named tt (map t_id (filter taxonomically_empty
                    (frame_after_drop (include_unclassified a) (map snd d)))))
                  (frame_after_drop (include_unclassified a) (map snd d))"
    by (rule final_frame)
  have fields: "tab_fields (csv_row (cols r)) = cols r" if "r \<in> set df" for r
  proof -
    from that frame obtain r0 where r0: "r0 \<in> set (map snd d)"
      and "r = named tt (map t_id (filter taxonomically_empty
                    (frame_after_drop (include_unclassified a) (map snd d)))) r0"
      by (auto simp: frame_after_drop_def split: if_splits)
    with cols_plain [OF assms(1) run r0]
    have "list_all (\<lambda>c. \<not> needs_quotes c) (cols r)" by simp
    moreover have "cols r \<noteq> []" by (simp add: cols_def)
    ultimately show ?thesis by (intro tab_fields_row)
  qed
  then have "map tab_fields rows = map cols df"
    by (simp add: rows to_csv_def)
  moreover have "length (tab_fields row) = 9" if "row \<in> set rows" for row
    using that fields by (auto simp: rows to_csv_def length_cols)
  moreover have "csv_row (cols (r\<lparr>t_id := i, hits_at_clade := n\<rparr>)) = csv_row (cols r)" for r i n
    by (simp add: cols_def)
  ultimately show ?thesis
    using df rows by (auto simp: cols_ranks)
qed

lemma example_tree_plain: "plain_names example_tree"
  by (simp add: plain_names_def example_tree_def needs_quotes_def)

theorem column_contract_witness:
  "plain_names example_tree
   \<and> fst (kraken2krona example_tree (scenario_A True)) =
     Inr [''8'' @ [tab] @ ''Bacteria'' @ [tab, tab, tab, tab, tab, tab, tab] @ ''X'']
   \<and> tab_fields (''8'' @ [tab] @ ''Bacteria'' @ [tab, tab, tab, tab, tab, tab, tab] @ ''X'')
       = [''8'', ''Bacteria'', [], [], [], [], [], [], ''X'']
   \<and> length (tab_fields (''8'' @ [tab] @ ''Bacteria'' @ [tab, tab, tab, tab, tab, tab, tab] @ ''X'')) = 9"
proof -
  have run: "fst (kraken2krona example_tree (scenario_A True)) =
     Inr [''8'' @ [tab] @ ''Bacteria'' @ [tab, tab, tab, tab, tab, tab, tab] @ ''X'']"
    by (rule scenario_A_run)
  from column_contract [OF example_tree_plain run]
  have "length (tab_fields (''8'' @ [tab] @ ''Bacteria'' @ [tab, tab, tab, tab, tab, tab, tab] @ ''X'')) = 9"
    by auto
  moreover have "tab_fields (''8'' @ [tab] @ ''Bacteria'' @ [tab, tab, tab, tab, tab, tab, tab] @ ''X'')
       = [''8'', ''Bacteria'', [], [], [], [], [], [], ''X'']"
    by (simp add: tab_fields_def)
  ultimately show ?thesis using run example_tree_plain by simp
qed

text \<open>
  A tree in which the species 5 has the name \<open>a\<close>, tab, \<open>b\<close>: the name is written
  between quote characters, and the row, cut at its tabs, has ten pieces.
\<close>

theorem column_contract_counterexample:
  "fst (kraken2krona tab_tree tab_args) =
     Inr [''3'' @ [tab, tab, tab, tab, tab, tab, tab, tab]
          @ [quotechar] @ ''a'' @ [tab] @ ''b'' @ [quotechar]]
   \<and> tab_fields (''3'' @ [tab, tab, tab, tab, tab, tab, tab, tab]
          @ [quotechar] @ ''a'' @ [tab] @ ''b'' @ [quotechar])
       = [''3'', [], [], [], [], [], [], [], [quotechar] @ ''a'', ''b'' @ [quotechar]]
   \<and> length (tab_fields (''3'' @ [tab, tab, tab, tab, tab, tab, tab, tab]
          @ [quotechar] @ ''a'' @ [tab] @ ''b'' @ [quotechar])) = 10"
  by code_simp

end
